theory Spec2Isabelle
  imports Complex_Main
begin

section \<open>Data model\<close>

text \<open>
  The development embeds \<open>scraipe_st/app.py\<close> (the Streamlit front end) and
  \<open>scraipe_st/default_config.py\<close>. A render cycle is one run of \<open>App.main\<close>;
  Streamlit's session state survives between cycles, everything else is rebuilt.

  Python exceptions are values. \<open>ProviderError msg\<close> stands for any exception raised
  inside a provider call, \<open>msg\<close> being \<open>str(e)\<close>; the other constructors are the
  exceptions the interpreter itself raises in the modelled lines.
\<close>

datatype exn = TypeError | IndexError | ZeroDivisionError | KeyError string | ProviderError string

text \<open>
  Modelled from the spec: \<open>ComponentStatus\<close> is declared in \<open>component_repo\<close>, which
  is not among the sources. The spec gives the enumeration as NOT_READY, READY and
  possibly others such as PENDING.
\<close>

datatype ComponentStatus = NOT_READY | READY | PENDING

text \<open>
  Modelled from the spec: \<open>ComponentMetadata\<close> (also from \<open>component_repo\<close>) is an
  immutable record of a name and a description.
\<close>

record ComponentMetadata =
  name :: string
  description :: string

text \<open>
  Modelled from the spec: the capability set of \<open>IComponentProvider\<close>. The type is
  declared in \<open>component_repo\<close>; the controller only calls these five methods, so a
  provider is taken as a parameter of that shape. \<open>'w\<close> is the state outside the
  session that a provider reads and advances (a login handshake, a reachable endpoint).
  \<open>get_component_and_status\<close> either raises or returns the pair; the controller wraps
  its call on the form path in \<open>try\<close>, so its raising is a branch of the model.
\<close>

record ('cfg, 'sch, 'c, 'w) provider =
  get_config_schema :: "'sch option"
  get_default_config :: "'cfg option"
  get_component_and_status :: "'cfg option \<Rightarrow> 'w \<Rightarrow> (string + ('c option \<times> ComponentStatus)) \<times> 'w"
  late_update :: "'c option \<Rightarrow> 'w \<Rightarrow> 'w"
  get_component_status :: "'c option \<Rightarrow> 'w \<Rightarrow> ComponentStatus"

text \<open>
  What a component slot of the session state can hold: Python's \<open>None\<close>, or a
  two-element tuple \<open>(component, status)\<close> either of whose elements may be \<open>None\<close>.
\<close>

datatype 'c slot_val = PyNone | Tuple "'c option" "ComponentStatus option"

text \<open>The initial values handed to the configuration form (line 228).\<close>

datatype ('cfg, 'sch) form_init = FromConfig 'cfg | FromSchema 'sch

text \<open>
  What a render cycle does besides changing the session state, in order: the widgets it
  renders and the calls it makes on its collaborators. Label texts are left out of the
  events where nothing below depends on them, and so are the calls that only lay the page
  out (containers, expanders, dividers, the style sheet written before the form).
\<close>

datatype ('cfg, 'sch, 'c) event =
    Subheader string
  | Selectbox string
  | PydanticForm string "('cfg, 'sch) form_init"
  | StError string
  | StWarning string
  | CallGetComponentAndStatus "'cfg option"
  | CallLateUpdate "'c option"
  | CallGetComponentStatus "'c option"
  | DescriptionMarkdown bool string string
  | NewWorkflow "'c option" "'c option"
  | Button string bool
  | ProgressBar rat
  | BarEmpty
  | ClearScrapes
  | ClearAnalyses
  | ScrapeGenerator "string list" bool
  | AnalyzeGenerator bool
  | YieldResult string
  | GetScrapes
  | GetAnalyses
  | ShowDataframe string

subsection \<open>Result tables and the workflow collaborator\<close>

text \<open>
  Modelled from the spec: the result row of each stage, with the columns the spec lists
  (\<open>link, content, scrape_success, scrape_error\<close> and
  \<open>output, link, analysis_success, analysis_error\<close>); the error is an optional string.
  The first two analysis fields carry a prefix, \<open>output\<close> being a reserved word here
  and \<open>link\<close> a field of the scrape row.
\<close>

record scrape_row =
  link :: string
  content :: "string option"
  scrape_success :: bool
  scrape_error :: "string option"

record analysis_row =
  analysis_output :: "string option"
  analysis_link :: string
  analysis_success :: bool
  analysis_error :: "string option"

text \<open>A pandas table: its column names and its rows, in order.\<close>

record 'r dataframe =
  columns :: "string list"
  rows :: "'r list"

text \<open>
  Modelled from the spec: \<open>scraipe.Workflow\<close>, the upstream collaborator, is a library
  class and not among the sources. The spec gives it settable \<open>scraper\<close> and
  \<open>analyzer\<close> properties and one ordered result table per stage.
\<close>

record 'c Workflow =
  scraper :: "'c option"
  analyzer :: "'c option"
  scrapes :: "scrape_row list"
  analyses :: "analysis_row list"

subsection \<open>Session state\<close>

text \<open>
  \<open>st.session_state\<close> is one dictionary keyed by strings. The keys the modelled code
  uses fall into families that cannot collide (\<open>Scraper_...\<close> and \<open>Analyzer_...\<close>
  for component slots, \<open>config_...\<close> for saved configurations, and the fixed keys
  \<open>workflow\<close>, \<open>links_df\<close>, \<open>scrapes_df\<close>, \<open>analysis_df\<close>), so each family is a
  field of its own. \<open>links_df\<close> keeps the \<open>link\<close> column of the edited table.
  \<open>world\<close> is the providers' outside state and \<open>ui\<close> the events so far.
\<close>

record ('cfg, 'sch, 'c, 'w) app_state =
  slots :: "string \<rightharpoonup> 'c slot_val"
  configs :: "string \<rightharpoonup> 'cfg"
  workflow :: "'c Workflow option"
  links_df :: "string list option"
  scrapes_df :: "scrape_row dataframe option"
  analysis_df :: "analysis_row dataframe option"
  world :: 'w
  ui :: "('cfg, 'sch, 'c) event list"

definition emit :: "('cfg, 'sch, 'c) event \<Rightarrow> ('cfg, 'sch, 'c, 'w) app_state
    \<Rightarrow> ('cfg, 'sch, 'c, 'w) app_state" where
  "emit e s = s\<lparr>ui := ui s @ [e]\<rparr>"

text \<open>\<open>st.session_state.get(key, (None, None))\<close>: the default only when the key is absent.\<close>

definition slot_get :: "(string \<rightharpoonup> 'c slot_val) \<Rightarrow> string \<Rightarrow> 'c slot_val" where
  "slot_get m k = (case m k of None \<Rightarrow> Tuple None None | Some v \<Rightarrow> v)"

section \<open>The configuration lifecycle controller\<close>

text \<open>
  Lines 232--241 of \<open>configure_component_loop\<close>: a submission was made, so the component
  is created inside \<open>try\<close>. On an exception the error is shown and the slot is set to
  \<open>None\<close>; otherwise (the \<open>else\<close> of the \<open>try\<close>) the configuration is saved.
\<close>

definition submit_config :: "string \<Rightarrow> string \<Rightarrow> string \<Rightarrow> ('cfg, 'sch, 'c, 'w) provider \<Rightarrow> 'cfg
    \<Rightarrow> ('cfg, 'sch, 'c, 'w) app_state \<Rightarrow> ('cfg, 'sch, 'c, 'w) app_state" where
  "submit_config role comp_key config_key p cfg s =
     (let s1 = emit (CallGetComponentAndStatus (Some cfg)) s;
          (r, w') = get_component_and_status p (Some cfg) (world s1);
          s2 = s1\<lparr>world := w'\<rparr>
      in case r of
           Inl msg \<Rightarrow>
             (emit (StError (''Error creating '' @ role @ '': '' @ msg)) s2)
               \<lparr>slots := (slots s2)(comp_key \<mapsto> PyNone)\<rparr>
         | Inr (c, status) \<Rightarrow>
             s2\<lparr>slots := (slots s2)(comp_key \<mapsto> Tuple c (Some status)),
                configs := (configs s2)(config_key \<mapsto> cfg)\<rparr>)"

text \<open>
  Lines 210--241, the provider has a schema. Line 222 unpacks the slot (which raises on
  a slot holding \<open>None\<close>); the form is rendered with
  \<open>config or provider.get_default_config() or schema\<close>, a saved or default
  configuration being a truthy object; \<open>submitted\<close> is what the form returns on this
  cycle, \<open>None\<close> unless the user has just submitted it.
\<close>

definition form_step :: "string \<Rightarrow> string \<Rightarrow> string \<Rightarrow> ('cfg, 'sch, 'c, 'w) provider \<Rightarrow> 'sch
    \<Rightarrow> 'cfg option \<Rightarrow> ('cfg, 'sch, 'c, 'w) app_state
    \<Rightarrow> (exn + unit) \<times> ('cfg, 'sch, 'c, 'w) app_state" where
  "form_step role comp_key config_key p schema submitted s =
     (case slot_get (slots s) comp_key of
        PyNone \<Rightarrow> (Inl TypeError, s)
      | Tuple component status \<Rightarrow>
          (let init = (case configs s config_key of
                         Some c \<Rightarrow> FromConfig c
                       | None \<Rightarrow> (case get_default_config p of
                                    Some d \<Rightarrow> FromConfig d
                                  | None \<Rightarrow> FromSchema schema));
               s1 = emit (PydanticForm (comp_key @ ''_form'') init) s
           in case submitted of
                None \<Rightarrow> (Inr (), s1)
              | Some cfg \<Rightarrow> (Inr (), submit_config role comp_key config_key p cfg s1)))"

text \<open>
  Lines 244--247, no schema: the component is created only while the slot is absent or
  \<open>None\<close>, and outside any \<open>try\<close>, so an exception of the provider leaves the function.
\<close>

definition no_config_step :: "string \<Rightarrow> ('cfg, 'sch, 'c, 'w) provider
    \<Rightarrow> ('cfg, 'sch, 'c, 'w) app_state \<Rightarrow> (exn + unit) \<times> ('cfg, 'sch, 'c, 'w) app_state" where
  "no_config_step comp_key p s =
     (if slots s comp_key = None \<or> slots s comp_key = Some PyNone then
        (let s1 = emit (CallGetComponentAndStatus None) s;
             (r, w') = get_component_and_status p None (world s1);
             s2 = s1\<lparr>world := w'\<rparr>
         in case r of
              Inl msg \<Rightarrow> (Inl (ProviderError msg), s2)
            | Inr (c, status) \<Rightarrow>
                (Inr (), s2\<lparr>slots := (slots s2)(comp_key \<mapsto> Tuple c (Some status))\<rparr>))
      else (Inr (), s))"

text \<open>
  Lines 249--266: the slot is unpacked again, \<open>late_update\<close> runs, the status is
  recomputed, and the pair is written back inside the \<open>READY\<close> branch only. The
  description is rendered with a mark that says whether the status is \<open>READY\<close>.
\<close>

definition late_update_step :: "string \<Rightarrow> ('cfg, 'sch, 'c, 'w) provider \<Rightarrow> ComponentMetadata
    \<Rightarrow> ('cfg, 'sch, 'c, 'w) app_state
    \<Rightarrow> (exn + string option) \<times> ('cfg, 'sch, 'c, 'w) app_state" where
  "late_update_step comp_key p metadata s =
     (case slot_get (slots s) comp_key of
        PyNone \<Rightarrow> (Inl TypeError, s)
      | Tuple component old_status \<Rightarrow>
          (let s1 = (emit (CallLateUpdate component) s)
                      \<lparr>world := late_update p component (world s)\<rparr>;
               status = get_component_status p component (world s1);
               s2 = emit (CallGetComponentStatus component) s1;
               s3 = (if status = READY
                     then s2\<lparr>slots := (slots s2)(comp_key \<mapsto> Tuple component (Some status))\<rparr>
                     else s2);
               s4 = emit (DescriptionMarkdown (status = READY) (name metadata)
                            (description metadata)) s3
           in (Inr (Some comp_key), s4)))"

text \<open>
  \<open>configure_component_loop\<close> (lines 185--266); its parameter \<open>comp\<close> is written
  \<open>role\<close> throughout, \<open>comp\<close> being function composition here. \<open>selected_index\<close> is what the select
  box returns: \<open>None\<close> when there is nothing to select, in which case the function
  falls off its end and returns \<open>None\<close>. \<open>if schema:\<close> takes the form path exactly when
  the provider returns a schema class.
\<close>

definition configure_component_loop :: "string
    \<Rightarrow> (('cfg, 'sch, 'c, 'w) provider \<times> ComponentMetadata) list \<Rightarrow> nat option \<Rightarrow> 'cfg option
    \<Rightarrow> ('cfg, 'sch, 'c, 'w) app_state
    \<Rightarrow> (exn + string option) \<times> ('cfg, 'sch, 'c, 'w) app_state" where
  "configure_component_loop role provider_options selected_index submitted s =
     (let s1 = emit (Selectbox (role @ ''_selectbox''))
                 (emit (Subheader (''Configure '' @ role)) s)
      in case selected_index of
           None \<Rightarrow> (Inr None, s1)
         | Some i \<Rightarrow>
             if length provider_options \<le> i then (Inl IndexError, s1)
             else
               (let (p, metadata) = provider_options ! i;
                    comp_key = role @ ''_'' @ name metadata;
                    config_key = ''config_'' @ comp_key;
                    (r, s2) = (case get_config_schema p of
                                 Some schema \<Rightarrow>
                                   form_step role comp_key config_key p schema submitted s1
                               | None \<Rightarrow> no_config_step comp_key p s1)
                in case r of
                     Inl e \<Rightarrow> (Inl e, s2)
                   | Inr _ \<Rightarrow> late_update_step comp_key p metadata s2))"

text \<open>The events a run of a function added to those already in the state.\<close>

definition new_events :: "('cfg, 'sch, 'c, 'w) app_state \<Rightarrow> ('cfg, 'sch, 'c, 'w) app_state
    \<Rightarrow> ('cfg, 'sch, 'c) event list" where
  "new_events s s' = drop (length (ui s)) (ui s')"

text \<open>
  Successive render cycles with the same selection and no form submission. Before each
  cycle the outside world may have moved on: \<open>envs\<close> holds one such change per cycle.
  An exception ends its cycle only; the session state it left is what the next one sees.
\<close>

fun render_cycles :: "string \<Rightarrow> (('cfg, 'sch, 'c, 'w) provider \<times> ComponentMetadata) list \<Rightarrow> nat
    \<Rightarrow> ('w \<Rightarrow> 'w) list \<Rightarrow> ('cfg, 'sch, 'c, 'w) app_state \<Rightarrow> ('cfg, 'sch, 'c, 'w) app_state" where
  "render_cycles role provider_options i [] s = s"
| "render_cycles role provider_options i (env # envs) s =
     render_cycles role provider_options i envs
       (snd (configure_component_loop role provider_options (Some i) None
               (s\<lparr>world := env (world s)\<rparr>)))"

section \<open>The workflow object\<close>

text \<open>
  \<open>App.get_workflow\<close> (lines 35--49). The workflow is created when the key is absent;
  the object found is then updated in place, so the session state sees the update. The
  arguments \<open>scraper\<close> and \<open>analyzer\<close> carry a suffix, the bare names being the fields.
  Modelled from the spec: \<open>Workflow(scraper, analyzer)\<close> starts with no results.
\<close>

definition get_workflow :: "'c option \<Rightarrow> 'c option \<Rightarrow> ('cfg, 'sch, 'c, 'w) app_state
    \<Rightarrow> 'c Workflow \<times> ('cfg, 'sch, 'c, 'w) app_state" where
  "get_workflow scraper_arg analyzer_arg s =
     (let (w, s1) = (case workflow s of
                       None \<Rightarrow> (\<lparr>scraper = scraper_arg, analyzer = analyzer_arg,
                                  scrapes = [], analyses = []\<rparr>,
                                emit (NewWorkflow scraper_arg analyzer_arg) s)
                     | Some w0 \<Rightarrow> (w0, s));
          w1 = (case scraper_arg of None \<Rightarrow> w | Some _ \<Rightarrow> w\<lparr>scraper := scraper_arg\<rparr>);
          w2 = (case analyzer_arg of None \<Rightarrow> w1 | Some _ \<Rightarrow> w1\<lparr>analyzer := analyzer_arg\<rparr>)
      in (w2, s1\<lparr>workflow := Some w2\<rparr>))"

text \<open>A series of calls of \<open>get_workflow\<close> within one session.\<close>

fun get_workflow_calls :: "('c option \<times> 'c option) list \<Rightarrow> ('cfg, 'sch, 'c, 'w) app_state
    \<Rightarrow> ('cfg, 'sch, 'c, 'w) app_state" where
  "get_workflow_calls [] s = s"
| "get_workflow_calls ((a, b) # cs) s = get_workflow_calls cs (snd (get_workflow a b s))"

fun is_NewWorkflow :: "('cfg, 'sch, 'c) event \<Rightarrow> bool" where
  "is_NewWorkflow (NewWorkflow a b) = True"
| "is_NewWorkflow e = False"

section \<open>The execution runner\<close>

text \<open>
  Modelled from the spec: the stage operations of \<open>scraipe.Workflow\<close>. \<open>clear_*\<close>
  drops the stage's results; \<open>get_*\<close> returns the stage's table with the listed
  columns, one row per result in processing order; a generator with \<open>overwrite=True\<close>
  discards the stage's prior results before starting and otherwise appends; each item
  yields one row, an error raised while processing it being captured into the row.
  The spec gives the error of a failed row as a non-empty string, populated with a
  message; how the library words it is not in the sources. So the error captured for an
  item is a text with a first character, \<open>error_string\<close> being the string stored.
  What the component does with one item is a parameter: \<open>Inl e\<close> when processing it
  raises and \<open>e\<close> is the error captured, \<open>Inr v\<close> when it returns \<open>v\<close>.
\<close>

datatype error_message = ErrorMessage char string

fun error_string :: "error_message \<Rightarrow> string" where
  "error_string (ErrorMessage c cs) = c # cs"

definition clear_scrapes :: "'c Workflow \<Rightarrow> 'c Workflow" where
  "clear_scrapes w = w\<lparr>scrapes := []\<rparr>"

definition clear_analyses :: "'c Workflow \<Rightarrow> 'c Workflow" where
  "clear_analyses w = w\<lparr>analyses := []\<rparr>"

definition get_scrapes :: "'c Workflow \<Rightarrow> scrape_row dataframe" where
  "get_scrapes w =
     \<lparr>columns = [''link'', ''content'', ''scrape_success'', ''scrape_error''], rows = scrapes w\<rparr>"

definition get_analyses :: "'c Workflow \<Rightarrow> analysis_row dataframe" where
  "get_analyses w =
     \<lparr>columns = [''output'', ''link'', ''analysis_success'', ''analysis_error''],
      rows = analyses w\<rparr>"

definition scrape_item :: "('c option \<Rightarrow> string \<Rightarrow> error_message + string) \<Rightarrow> 'c option \<Rightarrow> string
    \<Rightarrow> scrape_row" where
  "scrape_item work c l =
     (case work c l of
        Inl e \<Rightarrow> \<lparr>link = l, content = None, scrape_success = False,
                  scrape_error = Some (error_string e)\<rparr>
      | Inr txt \<Rightarrow> \<lparr>link = l, content = Some txt, scrape_success = True, scrape_error = None\<rparr>)"

definition analyze_item :: "('c option \<Rightarrow> scrape_row \<Rightarrow> error_message + string) \<Rightarrow> 'c option
    \<Rightarrow> scrape_row \<Rightarrow> analysis_row" where
  "analyze_item work c r =
     (case work c r of
        Inl e \<Rightarrow> \<lparr>analysis_output = None, analysis_link = link r,
                  analysis_success = False, analysis_error = Some (error_string e)\<rparr>
      | Inr out \<Rightarrow> \<lparr>analysis_output = Some out, analysis_link = link r,
                    analysis_success = True, analysis_error = None\<rparr>)"

definition start_scrape_generator :: "bool \<Rightarrow> 'c Workflow \<Rightarrow> 'c Workflow" where
  "start_scrape_generator overwrite w = (if overwrite then w\<lparr>scrapes := []\<rparr> else w)"

definition start_analyze_generator :: "bool \<Rightarrow> 'c Workflow \<Rightarrow> 'c Workflow" where
  "start_analyze_generator overwrite w = (if overwrite then w\<lparr>analyses := []\<rparr> else w)"

text \<open>
  The loop of lines 290--292. Each round the generator processes one link and yields;
  the body then shows \<open>acc/len(links)\<close> and increments \<open>acc\<close>. \<open>n_total\<close> is
  \<open>len(links)\<close>; a division by zero raises. The workflow object is shared with the
  session state, so it is returned as it stands when the loop ends or raises.
\<close>

fun scrape_loop :: "('c option \<Rightarrow> string \<Rightarrow> error_message + string) \<Rightarrow> string list \<Rightarrow> nat \<Rightarrow> nat
    \<Rightarrow> 'c Workflow \<Rightarrow> ('cfg, 'sch, 'c, 'w) app_state
    \<Rightarrow> (exn + unit) \<times> 'c Workflow \<times> ('cfg, 'sch, 'c, 'w) app_state" where
  "scrape_loop work [] n_total acc w s = (Inr (), w, s)"
| "scrape_loop work (l # ls) n_total acc w s =
     (let w1 = w\<lparr>scrapes := scrapes w @ [scrape_item work (scraper w) l]\<rparr>;
          s1 = emit (YieldResult l) s
      in if n_total = 0 then (Inl ZeroDivisionError, w1, s1)
         else scrape_loop work ls n_total (Suc acc) w1
                (emit (ProgressBar (of_nat acc / of_nat n_total)) s1))"

text \<open>
  Lines 285--297, the body of \<open>if st.button("Scrape", ...)\<close>. A missing \<open>links_df\<close>
  makes \<open>links_df["link"]\<close> raise. Line 295 tests for a column named \<open>df\<close> and then
  drops the column \<open>metadata\<close>, which raises when there is none.
\<close>

definition scrape_clicked :: "('c option \<Rightarrow> string \<Rightarrow> error_message + string) \<Rightarrow> 'c Workflow
    \<Rightarrow> ('cfg, 'sch, 'c, 'w) app_state \<Rightarrow> (exn + unit) \<times> ('cfg, 'sch, 'c, 'w) app_state" where
  "scrape_clicked work w s =
     (case links_df s of
        None \<Rightarrow> (Inl TypeError, s)
      | Some links \<Rightarrow>
          (let s1 = emit (ProgressBar 0) s;
               w1 = clear_scrapes w;
               s2 = (emit ClearScrapes s1)\<lparr>workflow := Some w1\<rparr>;
               w2 = start_scrape_generator True w1;
               s3 = emit (ScrapeGenerator links True) s2;
               (r, w3, s4) = scrape_loop work links (length links) 0 w2 s3;
               s5 = s4\<lparr>workflow := Some w3\<rparr>
           in case r of
                Inl e \<Rightarrow> (Inl e, s5)
              | Inr _ \<Rightarrow>
                  (let s6 = emit GetScrapes (emit BarEmpty s5);
                       df = get_scrapes w3
                   in if ''df'' \<in> set (columns df) then
                        (if ''metadata'' \<in> set (columns df)
                         then (Inr (), s6\<lparr>scrapes_df :=
                                 Some (df\<lparr>columns := removeAll ''metadata'' (columns df)\<rparr>)\<rparr>)
                         else (Inl (KeyError ''metadata''), s6))
                      else (Inr (), s6\<lparr>scrapes_df := Some df\<rparr>))))"

text \<open>\<open>st.session_state.get(key, (None, None))\<close> with the key a section was handed,
  which is \<open>None\<close> when nothing was selected: no entry is stored under it.\<close>

definition slot_get_opt :: "(string \<rightharpoonup> 'c slot_val) \<Rightarrow> string option \<Rightarrow> 'c slot_val" where
  "slot_get_opt m key = (case key of None \<Rightarrow> Tuple None None | Some k \<Rightarrow> slot_get m k)"

text \<open>
  \<open>run_scrape_section\<close> (lines 278--315). \<open>clicked\<close> is the value \<open>st.button\<close>
  returns on this rerun. The button is handed \<open>disabled=not can_run\<close>, and the body of
  the \<open>if\<close> runs whenever the button returns \<open>True\<close>: the code does not test
  \<open>can_run\<close> again.
\<close>

definition run_scrape_section :: "('c option \<Rightarrow> string \<Rightarrow> error_message + string) \<Rightarrow> string option \<Rightarrow> bool
    \<Rightarrow> ('cfg, 'sch, 'c, 'w) app_state \<Rightarrow> (exn + unit) \<times> ('cfg, 'sch, 'c, 'w) app_state" where
  "run_scrape_section work scraper_key clicked s =
     (case slot_get_opt (slots s) scraper_key of
        PyNone \<Rightarrow> (Inl TypeError, s)
      | Tuple scraper_v status \<Rightarrow>
          (let (w, s1) = get_workflow scraper_v None s;
               can_run = (status \<noteq> None \<and> status = Some READY);
               s2 = emit (Button ''run_scrape'' (\<not> can_run)) s1;
               (r, s3) = (if clicked then scrape_clicked work w s2
                          else (Inr (), s2))
           in case r of
                Inl e \<Rightarrow> (Inl e, s3)
              | Inr _ \<Rightarrow>
                  (let s4 = (if \<not> can_run
                             then emit (StWarning ''Configure a good scraper to scrape links.'') s3
                             else s3)
                   in case scrapes_df s4 of
                        None \<Rightarrow> (Inr (), s4)
                      | Some df \<Rightarrow>
                          if 0 < length (rows df)
                          then (Inr (), emit (ShowDataframe ''scrape_dataframe'') s4)
                          else (Inr (), s4))))"

text \<open>
  The loop of lines 335--337: one analysis per stored scrape, \<open>n_total\<close> being
  \<open>scrapes_length\<close>.
\<close>

fun analyze_loop :: "('c option \<Rightarrow> scrape_row \<Rightarrow> error_message + string) \<Rightarrow> scrape_row list \<Rightarrow> nat \<Rightarrow> nat
    \<Rightarrow> 'c Workflow \<Rightarrow> ('cfg, 'sch, 'c, 'w) app_state
    \<Rightarrow> (exn + unit) \<times> 'c Workflow \<times> ('cfg, 'sch, 'c, 'w) app_state" where
  "analyze_loop work [] n_total acc w s = (Inr (), w, s)"
| "analyze_loop work (r # rs) n_total acc w s =
     (let w1 = w\<lparr>analyses := analyses w @ [analyze_item work (analyzer w) r]\<rparr>;
          s1 = emit (YieldResult (link r)) s
      in if n_total = 0 then (Inl ZeroDivisionError, w1, s1)
         else analyze_loop work rs n_total (Suc acc) w1
                (emit (ProgressBar (of_nat acc / of_nat n_total)) s1))"

text \<open>Lines 330--339, the body of \<open>if st.button("Analyze", ...)\<close>.\<close>

definition analyze_clicked :: "('c option \<Rightarrow> scrape_row \<Rightarrow> error_message + string) \<Rightarrow> 'c Workflow
    \<Rightarrow> ('cfg, 'sch, 'c, 'w) app_state \<Rightarrow> (exn + unit) \<times> ('cfg, 'sch, 'c, 'w) app_state" where
  "analyze_clicked work w s =
     (let w1 = clear_analyses w;
          s1 = (emit ClearAnalyses s)\<lparr>workflow := Some w1\<rparr>;
          s2 = emit GetScrapes (emit (ProgressBar 0) s1);
          scrapes_length = length (rows (get_scrapes w1));
          w2 = start_analyze_generator True w1;
          s3 = emit (AnalyzeGenerator True) s2;
          (r, w3, s4) = analyze_loop work (scrapes w2) scrapes_length 0 w2 s3;
          s5 = s4\<lparr>workflow := Some w3\<rparr>
      in case r of
           Inl e \<Rightarrow> (Inl e, s5)
         | Inr _ \<Rightarrow>
             (Inr (), (emit GetAnalyses (emit BarEmpty s5))\<lparr>analysis_df := Some (get_analyses w3)\<rparr>))"

text \<open>\<open>run_analyze_section\<close> (lines 323--361), \<open>clicked\<close> as above.\<close>

definition run_analyze_section :: "('c option \<Rightarrow> scrape_row \<Rightarrow> error_message + string) \<Rightarrow> string option
    \<Rightarrow> bool \<Rightarrow> ('cfg, 'sch, 'c, 'w) app_state
    \<Rightarrow> (exn + unit) \<times> ('cfg, 'sch, 'c, 'w) app_state" where
  "run_analyze_section work analyzer_key clicked s =
     (case slot_get_opt (slots s) analyzer_key of
        PyNone \<Rightarrow> (Inl TypeError, s)
      | Tuple analyzer_v status \<Rightarrow>
          (let (w, s1) = get_workflow None analyzer_v s;
               can_run = (status \<noteq> None \<and> status = Some READY);
               s2 = emit (Button ''run_analyze'' (\<not> can_run)) s1;
               (r, s3) = (if clicked then analyze_clicked work w s2
                          else (Inr (), s2))
           in case r of
                Inl e \<Rightarrow> (Inl e, s3)
              | Inr _ \<Rightarrow>
                  (let s4 = (if \<not> can_run
                             then emit (StWarning ''Configure a good analyzer to analyze content.'') s3
                             else s3)
                   in case analysis_df s4 of
                        None \<Rightarrow> (Inr (), s4)
                      | Some df \<Rightarrow>
                          if 0 < length (rows df) \<and> ''analysis_success'' \<in> set (columns df)
                          then (Inr (), emit (ShowDataframe ''analyze_dataframe'') s4)
                          else (Inr (), s4))))"

text \<open>The stored status of a slot, as the run sections read it.\<close>

definition stored_status :: "(string \<rightharpoonup> 'c slot_val) \<Rightarrow> string option \<Rightarrow> ComponentStatus option" where
  "stored_status m key = (case slot_get_opt m key of PyNone \<Rightarrow> None | Tuple c status \<Rightarrow> status)"

fun is_runner_call :: "('cfg, 'sch, 'c) event \<Rightarrow> bool" where
  "is_runner_call ClearScrapes = True"
| "is_runner_call ClearAnalyses = True"
| "is_runner_call (ScrapeGenerator ls b) = True"
| "is_runner_call (AnalyzeGenerator b) = True"
| "is_runner_call (YieldResult l) = True"
| "is_runner_call e = False"

fun progress_values :: "('cfg, 'sch, 'c) event list \<Rightarrow> rat list" where
  "progress_values [] = []"
| "progress_values (ProgressBar v # es) = v # progress_values es"
| "progress_values (e # es) = progress_values es"

section \<open>The default links\<close>

text \<open>
  Python lists are objects: a heap maps addresses to list contents and \<open>next_addr\<close> is
  the next free address. \<open>_default_links\<close> is the list the module creates when it is
  loaded (lines 9--17); \<open>get_default_links\<close> (lines 20--27) returns
  \<open>_default_links.copy()\<close>, a new object with the same elements.
\<close>

record py_heap =
  objs :: "nat \<rightharpoonup> string list"
  next_addr :: nat

definition default_links_ref :: nat where
  "default_links_ref = 0"

definition default_links :: "string list" where
  "default_links =
     [''https://example.com'',
      ''https://rickandmortyapi.com/api/character/1'',
      ''https://ckaestne.github.io/seai/'',
      ''https://t.me/TelegramTips/515'',
      ''https://en.wikipedia.org/wiki/CSS_Industries'',
      ''https://www.cmu.edu/policies/student-and-student-life/academic-integrity.html'',
      ''https://privacy.cs.cmu.edu/masters/plan/courses/informationsecurity-privacy-and-policy.html'']"

definition module_heap :: py_heap where
  "module_heap = \<lparr>objs = [default_links_ref \<mapsto> default_links], next_addr = Suc default_links_ref\<rparr>"

definition list_copy :: "nat \<Rightarrow> py_heap \<Rightarrow> (nat \<times> py_heap) option" where
  "list_copy a h =
     (case objs h a of
        None \<Rightarrow> None
      | Some xs \<Rightarrow> Some (next_addr h,
                         h\<lparr>objs := (objs h)(next_addr h \<mapsto> xs), next_addr := Suc (next_addr h)\<rparr>))"

definition get_default_links :: "py_heap \<Rightarrow> (nat \<times> py_heap) option" where
  "get_default_links h = list_copy default_links_ref h"

text \<open>
  What a caller can do with the lists it was given: ask for another one, or change the
  contents of the list it got from its \<open>i\<close>-th call in any way (\<open>returned\<close> collects
  the addresses handed out, oldest first).
\<close>

datatype client_op = CallGetDefaultLinks | MutateReturned nat "string list"

fun client_step :: "client_op \<Rightarrow> py_heap \<times> nat list \<Rightarrow> py_heap \<times> nat list" where
  "client_step CallGetDefaultLinks (h, returned) =
     (case get_default_links h of
        None \<Rightarrow> (h, returned)
      | Some (a, h') \<Rightarrow> (h', returned @ [a]))"
| "client_step (MutateReturned i xs) (h, returned) =
     (if i < length returned then (h\<lparr>objs := (objs h)(returned ! i \<mapsto> xs)\<rparr>, returned)
      else (h, returned))"

fun client_run :: "client_op list \<Rightarrow> py_heap \<times> nat list \<Rightarrow> py_heap \<times> nat list" where
  "client_run [] st = st"
| "client_run (op # ops) st = client_run ops (client_step op st)"

section \<open>Invariants and sample inputs\<close>

text \<open>
  What every heap reachable by a caller satisfies: the module's list is intact and no
  address handed out is the module's.
\<close>

definition heap_inv :: "py_heap \<times> nat list \<Rightarrow> bool" where
  "heap_inv st = (case st of (h, returned) \<Rightarrow>
      objs h default_links_ref = Some default_links \<and> default_links_ref < next_addr h \<and>
      list_all (\<lambda>a. default_links_ref < a \<and> a < next_addr h) returned)"

text \<open>Which events are calls of the provider.\<close>

fun is_CallLateUpdate :: "('cfg, 'sch, 'c) event \<Rightarrow> bool" where
  "is_CallLateUpdate (CallLateUpdate c) = True"
| "is_CallLateUpdate e = False"

fun is_CallGetComponentAndStatus :: "('cfg, 'sch, 'c) event \<Rightarrow> bool" where
  "is_CallGetComponentAndStatus (CallGetComponentAndStatus c) = True"
| "is_CallGetComponentAndStatus e = False"

text \<open>
  Sample inputs. Configurations, schemas and components are numbers; the outside world
  is one flag, whether the service behind the component can be reached.
\<close>

definition sample_metadata :: ComponentMetadata where
  "sample_metadata = \<lparr>name = ''Sample'', description = ''A sample component''\<rparr>"

definition empty_state :: "bool \<Rightarrow> (nat, nat, nat, bool) app_state" where
  "empty_state w = \<lparr>slots = Map.empty, configs = Map.empty, workflow = None, links_df = None,
     scrapes_df = None, analysis_df = None, world = w, ui = []\<rparr>"

text \<open>A provider with a schema whose component cannot be built: every attempt raises.\<close>

definition failing_provider :: "(nat, nat, nat, bool) provider" where
  "failing_provider = \<lparr>get_config_schema = Some 0, get_default_config = None,
     get_component_and_status = (\<lambda>cfg w. (Inl ''bad key'', w)),
     late_update = (\<lambda>c w. w),
     get_component_status = (\<lambda>c w. NOT_READY)\<rparr>"

text \<open>A provider without a schema; its component is ready while the service is reachable.\<close>

definition plain_provider :: "(nat, nat, nat, bool) provider" where
  "plain_provider = \<lparr>get_config_schema = None, get_default_config = None,
     get_component_and_status = (\<lambda>cfg w. (Inr (Some 7, if w then READY else NOT_READY), w)),
     late_update = (\<lambda>c w. w),
     get_component_status = (\<lambda>c w. if w then READY else NOT_READY)\<rparr>"

text \<open>A provider with a schema and a default configuration; configuration 0 is rejected.\<close>

definition form_provider :: "(nat, nat, nat, bool) provider" where
  "form_provider = \<lparr>get_config_schema = Some 0, get_default_config = Some 5,
     get_component_and_status =
       (\<lambda>cfg w. case cfg of
                   None \<Rightarrow> (Inl ''no configuration'', w)
                 | Some n \<Rightarrow> if n = 0 then (Inl ''rejected'', w) else (Inr (Some n, READY), w)),
     late_update = (\<lambda>c w. w),
     get_component_status = (\<lambda>c w. if w then READY else NOT_READY)\<rparr>"

definition service_up :: "bool \<Rightarrow> bool" where
  "service_up w = True"

definition service_down :: "bool \<Rightarrow> bool" where
  "service_down w = False"

text \<open>
  The form's initial values in the spec's words: the last saved configuration if there is
  one, otherwise the provider's default configuration, otherwise the bare schema.
\<close>

definition spec_form_init :: "'cfg option \<Rightarrow> 'cfg option \<Rightarrow> 'sch \<Rightarrow> ('cfg, 'sch) form_init" where
  "spec_form_init saved dflt schema =
     (if saved \<noteq> None then FromConfig (the saved)
      else if dflt \<noteq> None then FromConfig (the dflt)
      else FromSchema schema)"

text \<open>
  The events of a run's loop over the items \<open>ls\<close> when it does not raise: each item is
  yielded and then the bar is set to \<open>acc / n_total\<close>, \<open>acc\<close> counting the items
  before this one.
\<close>

fun loop_events :: "string list \<Rightarrow> nat \<Rightarrow> nat \<Rightarrow> ('cfg, 'sch, 'c) event list" where
  "loop_events [] n_total acc = []"
| "loop_events (l # ls) n_total acc =
     YieldResult l # ProgressBar (of_nat acc / of_nat n_total) # loop_events ls n_total (Suc acc)"

fun is_Button :: "('cfg, 'sch, 'c) event \<Rightarrow> bool" where
  "is_Button (Button k d) = True"
| "is_Button e = False"

text \<open>
  A sample scraper and analyzer: the link \<open>https://bad.test\<close> cannot be fetched, and
  an empty page cannot be analyzed.
\<close>

definition sample_scrape :: "nat option \<Rightarrow> string \<Rightarrow> error_message + string" where
  "sample_scrape c l =
     (if l = ''https://bad.test'' then Inl (ErrorMessage CHR ''c'' ''onnection refused'')
      else Inr ''page text'')"

definition sample_analyze :: "nat option \<Rightarrow> scrape_row \<Rightarrow> error_message + string" where
  "sample_analyze c r =
     (case content r of
        None \<Rightarrow> Inl (ErrorMessage CHR ''n'' ''othing to analyze'')
      | Some txt \<Rightarrow> Inr ''{}'')"

definition sample_links :: "string list" where
  "sample_links = [''https://a.test'', ''https://bad.test'', ''https://c.test'']"

text \<open>A session with a ready scraper and analyzer selected and the three sample links.\<close>

definition ready_state :: "(nat, nat, nat, bool) app_state" where
  "ready_state = \<lparr>slots = [''Scraper_Sample'' \<mapsto> Tuple (Some 7) (Some READY),
                           ''Analyzer_Sample'' \<mapsto> Tuple (Some 8) (Some READY)],
     configs = Map.empty, workflow = None, links_df = Some sample_links,
     scrapes_df = None, analysis_df = None, world = True, ui = []\<rparr>"

text \<open>The calls that clear a stage or start its generator, and the links a run yielded.\<close>

fun is_stage_call :: "('cfg, 'sch, 'c) event \<Rightarrow> bool" where
  "is_stage_call ClearScrapes = True"
| "is_stage_call ClearAnalyses = True"
| "is_stage_call (ScrapeGenerator ls b) = True"
| "is_stage_call (AnalyzeGenerator b) = True"
| "is_stage_call e = False"

fun yielded :: "('cfg, 'sch, 'c) event list \<Rightarrow> string list" where
  "yielded [] = []"
| "yielded (YieldResult l # es) = l # yielded es"
| "yielded (e # es) = yielded es"

text \<open>
  The sample session after a click on Scrape, and the same with the list of links then
  edited down to two others.
\<close>

definition scraped_state :: "(nat, nat, nat, bool) app_state" where
  "scraped_state = snd (run_scrape_section sample_scrape (Some ''Scraper_Sample'') True ready_state)"

definition second_links :: "string list" where
  "second_links = [''https://d.test'', ''https://e.test'']"

definition edited_state :: "(nat, nat, nat, bool) app_state" where
  "edited_state = scraped_state\<lparr>links_df := Some second_links\<rparr>"

text \<open>
  The sample session with the selected scraper and analyzer stored as not ready.
\<close>

definition unready_state :: "(nat, nat, nat, bool) app_state" where
  "unready_state = ready_state\<lparr>slots := [''Scraper_Sample'' \<mapsto> Tuple (Some 7) (Some NOT_READY),
                                           ''Analyzer_Sample'' \<mapsto> Tuple (Some 8) (Some NOT_READY)]\<rparr>"

text \<open>
  What lines 210--247 leave in the slot, given what the slot held on entry, what the form
  returned and the world the provider saw: with a schema nothing changes without a
  submission, and a submission stores the pair the provider returned, or \<open>None\<close> when it
  raised; without a schema the provider is asked only while the slot is absent or \<open>None\<close>,
  and its pair is stored when it returns.
\<close>

definition configured_slot :: "('cfg, 'sch, 'c, 'w) provider \<Rightarrow> 'cfg option \<Rightarrow> 'w
    \<Rightarrow> 'c slot_val option \<Rightarrow> 'c slot_val option" where
  "configured_slot p submitted w entry =
     (case get_config_schema p of
        Some sch \<Rightarrow>
          (case submitted of
             None \<Rightarrow> entry
           | Some cfg \<Rightarrow>
               (case fst (get_component_and_status p (Some cfg) w) of
                  Inl msg \<Rightarrow> Some PyNone
                | Inr (c, status) \<Rightarrow> Some (Tuple c (Some status))))
      | None \<Rightarrow>
          if entry = None \<or> entry = Some PyNone
          then (case fst (get_component_and_status p None w) of
                  Inl msg \<Rightarrow> entry
                | Inr (c, status) \<Rightarrow> Some (Tuple c (Some status)))
          else entry)"

text \<open>The pair that unpacking a slot gives, the default \<open>(None, None)\<close> for an absent one.\<close>

definition slot_pair :: "'c slot_val option \<Rightarrow> 'c slot_val" where
  "slot_pair v = (case v of None \<Rightarrow> Tuple None None | Some x \<Rightarrow> x)"

section \<open>Properties\<close>

subsection \<open>The default links\<close>

lemma heap_inv_step: "heap_inv st \<Longrightarrow> heap_inv (client_step op st)"
proof (cases st)
  case (Pair h returned)
  assume inv: "heap_inv st"
  show ?thesis
  proof (cases op)
    case CallGetDefaultLinks
    with inv Pair show ?thesis
      by (auto simp: heap_inv_def get_default_links_def list_copy_def list_all_iff
               dest: less_SucI)
  next
    case (MutateReturned i xs)
    show ?thesis
    proof (cases "i < length returned")
      case True
      then have "returned ! i \<in> set returned" by simp
      with inv Pair have "default_links_ref \<noteq> returned ! i"
        by (auto simp: heap_inv_def list_all_iff)
      with inv Pair MutateReturned True show ?thesis
        by (simp add: heap_inv_def)
    next
      case False
      with inv Pair MutateReturned show ?thesis by simp
    qed
  qed
qed

lemma heap_inv_run: "heap_inv st \<Longrightarrow> heap_inv (client_run ops st)"
  by (induction ops arbitrary: st) (simp_all add: heap_inv_step)

lemma heap_inv_init: "heap_inv (module_heap, [])"
  by (simp add: heap_inv_def module_heap_def)

text \<open>
  C10. After the module is loaded, let a caller call \<open>get_default_links\<close> and change
  the lists it was given in any way and any order. The next call still returns a list
  whose contents are the seven default links, at an address that is neither the module's
  own list nor any list returned before; the module's list is unchanged.
\<close>

theorem get_default_links_fresh_copy:
  "\<exists>a h'. get_default_links (fst (client_run ops (module_heap, []))) = Some (a, h')
      \<and> objs h' a = Some default_links
      \<and> length default_links = 7
      \<and> a \<noteq> default_links_ref
      \<and> a \<notin> set (snd (client_run ops (module_heap, [])))
      \<and> objs h' default_links_ref = Some default_links"
proof -
  obtain h returned where run: "client_run ops (module_heap, []) = (h, returned)"
    by (cases "client_run ops (module_heap, [])")
  have "heap_inv (h, returned)"
    using heap_inv_run [OF heap_inv_init, of ops] run by simp
  then show ?thesis
    using run
    by (auto simp: heap_inv_def get_default_links_def list_copy_def list_all_iff default_links_def)
qed

theorem get_default_links_fresh_copy_witness:
  "\<exists>a h'. get_default_links (fst (client_run
        [CallGetDefaultLinks, MutateReturned 0 [''x''], CallGetDefaultLinks] (module_heap, [])))
        = Some (a, h')
      \<and> objs h' a = Some default_links \<and> a \<noteq> default_links_ref"
  using get_default_links_fresh_copy
    [of "[CallGetDefaultLinks, MutateReturned 0 [''x''], CallGetDefaultLinks]"]
  by blast

subsection \<open>The workflow object\<close>

lemma get_workflow_present:
  "workflow s = Some w \<Longrightarrow>
     get_workflow a b s =
       (w\<lparr>scraper := (case a of None \<Rightarrow> scraper w | Some x \<Rightarrow> Some x),
          analyzer := (case b of None \<Rightarrow> analyzer w | Some x \<Rightarrow> Some x)\<rparr>,
        s\<lparr>workflow := Some (w\<lparr>scraper := (case a of None \<Rightarrow> scraper w | Some x \<Rightarrow> Some x),
          analyzer := (case b of None \<Rightarrow> analyzer w | Some x \<Rightarrow> Some x)\<rparr>)\<rparr>)"
  by (cases a; cases b; simp add: get_workflow_def Let_def)

lemma get_workflow_absent:
  "workflow s = None \<Longrightarrow>
     get_workflow a b s =
       (\<lparr>scraper = a, analyzer = b, scrapes = [], analyses = []\<rparr>,
        (emit (NewWorkflow a b) s)
          \<lparr>workflow := Some \<lparr>scraper = a, analyzer = b, scrapes = [], analyses = []\<rparr>\<rparr>)"
  by (cases a; cases b; simp add: get_workflow_def Let_def)

lemma get_workflow_calls_present:
  "workflow s \<noteq> None \<Longrightarrow>
     ui (get_workflow_calls cs s) = ui s \<and> workflow (get_workflow_calls cs s) \<noteq> None"
proof (induction cs arbitrary: s)
  case Nil
  then show ?case by simp
next
  case (Cons c cs)
  obtain a b where c: "c = (a, b)" by (cases c)
  from Cons.prems obtain w where w: "workflow s = Some w" by auto
  show ?case
    using Cons.IH [of "snd (get_workflow a b s)"]
    by (simp add: c get_workflow_present [OF w])
qed

text \<open>
  C9. A call of \<open>get_workflow\<close> on a session that has a workflow returns that workflow
  with \<open>scraper\<close> replaced exactly when the argument is not \<open>None\<close>, likewise
  \<open>analyzer\<close>, its result tables and the rest of the session untouched; on a session
  without one it stores the workflow built from the two arguments. Over any series of
  calls in a session, a workflow is created at most once.
\<close>

theorem get_workflow_frame:
  "(case workflow s of
      None \<Rightarrow> get_workflow a b s =
         (\<lparr>scraper = a, analyzer = b, scrapes = [], analyses = []\<rparr>,
          s\<lparr>workflow := Some \<lparr>scraper = a, analyzer = b, scrapes = [], analyses = []\<rparr>,
            ui := ui s @ [NewWorkflow a b]\<rparr>)
    | Some w \<Rightarrow> get_workflow a b s =
         (w\<lparr>scraper := (case a of None \<Rightarrow> scraper w | Some x \<Rightarrow> Some x),
            analyzer := (case b of None \<Rightarrow> analyzer w | Some x \<Rightarrow> Some x)\<rparr>,
          s\<lparr>workflow := Some (w\<lparr>scraper := (case a of None \<Rightarrow> scraper w | Some x \<Rightarrow> Some x),
            analyzer := (case b of None \<Rightarrow> analyzer w | Some x \<Rightarrow> Some x)\<rparr>)\<rparr>))
   \<and> length (filter is_NewWorkflow (new_events s (get_workflow_calls cs s))) \<le> 1"
proof -
  have count: "length (filter is_NewWorkflow (new_events s (get_workflow_calls cs s))) \<le> 1"
  proof (cases cs)
    case Nil
    then show ?thesis by (simp add: new_events_def)
  next
    case (Cons c cs')
    obtain x y where c: "c = (x, y)" by (cases c)
    show ?thesis
    proof (cases "workflow s")
      case None
      let ?s1 = "snd (get_workflow x y s)"
      have "workflow ?s1 \<noteq> None" by (simp add: get_workflow_absent [OF None])
      from get_workflow_calls_present [OF this, of cs']
      have "ui (get_workflow_calls cs' ?s1) = ui s @ [NewWorkflow x y]"
        by (simp add: get_workflow_absent [OF None] emit_def)
      then show ?thesis by (simp add: Cons c new_events_def)
    next
      case (Some w)
      then have "workflow s \<noteq> None" by simp
      from get_workflow_calls_present [OF this, of cs]
      show ?thesis by (simp add: new_events_def)
    qed
  qed
  show ?thesis
    using count
    by (cases "workflow s") (simp_all add: get_workflow_present get_workflow_absent emit_def)
qed

theorem get_workflow_frame_witness:
  "workflow (ready_state\<lparr>workflow := Some \<lparr>scraper = Some 1, analyzer = Some 2,
                                  scrapes = [], analyses = []\<rparr>\<rparr>) \<noteq> None
   \<and> fst (get_workflow None (Some 9)
          (ready_state\<lparr>workflow := Some \<lparr>scraper = Some 1, analyzer = Some 2,
                                  scrapes = [], analyses = []\<rparr>\<rparr>))
       = \<lparr>scraper = Some 1, analyzer = Some 9, scrapes = [], analyses = []\<rparr>
   \<and> length (filter is_NewWorkflow
        (new_events ready_state
           (get_workflow_calls [(Some 7, None), (None, Some 8), (None, None)] ready_state))) \<le> 1"
  using get_workflow_frame [where s = "ready_state\<lparr>workflow := Some \<lparr>scraper = Some 1,
          analyzer = Some 2, scrapes = [], analyses = []\<rparr>\<rparr>" and a = None and b = "Some 9"
          and cs = "[]"]
        get_workflow_frame [where s = ready_state and a = None and b = None
          and cs = "[(Some 7, None), (None, Some 8), (None, None)]"]
  by simp

subsection \<open>The configuration lifecycle controller\<close>

lemma late_update_step_Tuple:
  "slot_get (slots s) key = Tuple c old \<Longrightarrow>
   late_update_step key p md s =
     (Inr (Some key),
      s\<lparr>world := late_update p c (world s),
        slots := (if get_component_status p c (late_update p c (world s)) = READY
                  then (slots s)(key \<mapsto> Tuple c (Some READY)) else slots s),
        ui := ui s @ [CallLateUpdate c, CallGetComponentStatus c,
                DescriptionMarkdown (get_component_status p c (late_update p c (world s)) = READY)
                  (name md) (description md)]\<rparr>)"
  by (simp add: late_update_step_def Let_def emit_def)

lemma late_update_step_PyNone:
  "slot_get (slots s) key = PyNone \<Longrightarrow> late_update_step key p md s = (Inl TypeError, s)"
  by (simp add: late_update_step_def)

lemma submit_config_Inl:
  "get_component_and_status p (Some cfg) (world s) = (Inl msg, w') \<Longrightarrow>
   submit_config role key ckey p cfg s =
     s\<lparr>world := w', slots := (slots s)(key \<mapsto> PyNone),
       ui := ui s @ [CallGetComponentAndStatus (Some cfg),
                     StError (''Error creating '' @ role @ '': '' @ msg)]\<rparr>"
  by (simp add: submit_config_def Let_def emit_def)

lemma submit_config_Inr:
  "get_component_and_status p (Some cfg) (world s) = (Inr (c, st), w') \<Longrightarrow>
   submit_config role key ckey p cfg s =
     s\<lparr>world := w', slots := (slots s)(key \<mapsto> Tuple c (Some st)),
       configs := (configs s)(ckey \<mapsto> cfg),
       ui := ui s @ [CallGetComponentAndStatus (Some cfg)]\<rparr>"
  by (simp add: submit_config_def Let_def emit_def)

lemma form_step_PyNone:
  "slot_get (slots s) key = PyNone \<Longrightarrow>
   form_step role key ckey p sch submitted s = (Inl TypeError, s)"
  by (simp add: form_step_def)

lemma form_step_Tuple:
  "slot_get (slots s) key = Tuple c old \<Longrightarrow>
   form_step role key ckey p sch submitted s =
     (Inr (),
      case submitted of
        None \<Rightarrow> emit (PydanticForm (key @ ''_form'')
                   (spec_form_init (configs s ckey) (get_default_config p) sch)) s
      | Some cfg \<Rightarrow> submit_config role key ckey p cfg
                   (emit (PydanticForm (key @ ''_form'')
                      (spec_form_init (configs s ckey) (get_default_config p) sch)) s))"
  by (auto simp: form_step_def Let_def spec_form_init_def split: option.splits)

lemma no_config_step_present:
  "slots s key = Some (Tuple c old) \<Longrightarrow> no_config_step key p s = (Inr (), s)"
  by (simp add: no_config_step_def)

lemma no_config_step_absent_Inl:
  "slots s key = None \<or> slots s key = Some PyNone \<Longrightarrow>
   get_component_and_status p None (world s) = (Inl msg, w') \<Longrightarrow>
   no_config_step key p s =
     (Inl (ProviderError msg), s\<lparr>world := w', ui := ui s @ [CallGetComponentAndStatus None]\<rparr>)"
  by (auto simp: no_config_step_def Let_def emit_def)

lemma no_config_step_absent_Inr:
  "slots s key = None \<or> slots s key = Some PyNone \<Longrightarrow>
   get_component_and_status p None (world s) = (Inr (c, st), w') \<Longrightarrow>
   no_config_step key p s =
     (Inr (), s\<lparr>world := w', slots := (slots s)(key \<mapsto> Tuple c (Some st)),
               ui := ui s @ [CallGetComponentAndStatus None]\<rparr>)"
  by (auto simp: no_config_step_def Let_def emit_def)

lemma configure_component_loop_mid:
  assumes "i < length opts" and "opts ! i = (p, md)"
      and "key = role @ ''_'' @ name md" and "ckey = ''config_'' @ key"
      and "s1 = s\<lparr>ui := ui s @ [Subheader (''Configure '' @ role), Selectbox (role @ ''_selectbox'')]\<rparr>"
      and "(case get_config_schema p of
              Some schema \<Rightarrow> form_step role key ckey p schema submitted s1
            | None \<Rightarrow> no_config_step key p s1) = (r, s2)"
  shows "configure_component_loop role opts (Some i) submitted s =
           (case r of Inl e \<Rightarrow> (Inl e, s2) | Inr _ \<Rightarrow> late_update_step key p md s2)"
  using assms
  by (cases "get_config_schema p")
     (auto simp: configure_component_loop_def Let_def emit_def)

lemma submit_config_ui:
  "\<exists>evs. ui (submit_config role key ckey p cfg s) = ui s @ evs \<and> \<not> list_ex is_CallLateUpdate evs"
proof (cases "get_component_and_status p (Some cfg) (world s)")
  case (Pair r w')
  show ?thesis
  proof (cases r)
    case (Inl msg)
    with Pair show ?thesis by (simp add: submit_config_Inl)
  next
    case (Inr pr)
    obtain c st where "pr = (c, st)" by (cases pr)
    with Pair Inr show ?thesis by (simp add: submit_config_Inr)
  qed
qed

lemma form_step_ui:
  assumes "form_step role key ckey p sch submitted s = (r, s2)"
  shows "\<exists>evs. ui s2 = ui s @ evs \<and> \<not> list_ex is_CallLateUpdate evs"
proof (cases "slot_get (slots s) key")
  case PyNone
  with assms show ?thesis by (simp add: form_step_PyNone)
next
  case (Tuple c old)
  show ?thesis
  proof (cases submitted)
    case None
    with assms Tuple show ?thesis by (auto simp: form_step_Tuple emit_def)
  next
    case (Some cfg)
    let ?s1 = "emit (PydanticForm (key @ ''_form'')
                 (spec_form_init (configs s ckey) (get_default_config p) sch)) s"
    from submit_config_ui [of role key ckey p cfg ?s1]
    obtain evs where "ui (submit_config role key ckey p cfg ?s1) = ui ?s1 @ evs"
      and "\<not> list_ex is_CallLateUpdate evs" by blast
    with assms Tuple Some show ?thesis by (auto simp: form_step_Tuple emit_def)
  qed
qed

lemma form_step_no_submission:
  "form_step role key ckey p sch None s = (r, s2) \<Longrightarrow> slots s2 = slots s \<and> configs s2 = configs s"
  by (cases "slot_get (slots s) key") (auto simp: form_step_PyNone form_step_Tuple emit_def)

lemma no_config_step_ui:
  assumes "no_config_step key p s = (r, s2)"
  shows "\<exists>evs. ui s2 = ui s @ evs \<and> \<not> list_ex is_CallLateUpdate evs"
  using assms
  by (auto simp: no_config_step_def Let_def emit_def split: if_splits prod.splits sum.splits)

lemma form_step_slots:
  assumes "form_step role key ckey p sch submitted s = (Inr u, s2)"
      and "get_config_schema p = Some sch"
  shows "slots s2 = (slots s)(key := configured_slot p submitted (world s) (slots s key))"
proof (cases "slot_get (slots s) key")
  case PyNone
  with assms show ?thesis by (simp add: form_step_PyNone)
next
  case (Tuple c old)
  show ?thesis
  proof (cases submitted)
    case None
    with assms Tuple show ?thesis
      by (auto simp: form_step_Tuple emit_def configured_slot_def)
  next
    case (Some cfg)
    let ?s1 = "emit (PydanticForm (key @ ''_form'')
                 (spec_form_init (configs s ckey) (get_default_config p) sch)) s"
    have s2: "s2 = submit_config role key ckey p cfg ?s1"
      using assms(1) Some by (auto simp: form_step_Tuple [OF Tuple])
    obtain res w' where call: "get_component_and_status p (Some cfg) (world ?s1) = (res, w')"
      by (cases "get_component_and_status p (Some cfg) (world ?s1)")
    have w: "world ?s1 = world s" by (simp add: emit_def)
    show ?thesis
    proof (cases res)
      case (Inl msg)
      from submit_config_Inl [OF call [unfolded Inl], of role key ckey]
      show ?thesis using s2 Some call Inl w assms(2)
        by (simp add: emit_def configured_slot_def)
    next
      case (Inr pr)
      obtain c1 st1 where pr: "pr = (c1, st1)" by (cases pr)
      from submit_config_Inr [OF call [unfolded Inr pr], of role key ckey]
      show ?thesis using s2 Some call Inr pr w assms(2)
        by (simp add: emit_def configured_slot_def)
    qed
  qed
qed

lemma no_config_step_slots:
  assumes "no_config_step key p s = (Inr u, s2)"
      and "get_config_schema p = None"
  shows "slots s2 = (slots s)(key := configured_slot p submitted (world s) (slots s key))"
proof (cases "slots s key = None \<or> slots s key = Some PyNone")
  case True
  obtain res w' where call: "get_component_and_status p None (world s) = (res, w')"
    by (cases "get_component_and_status p None (world s)")
  show ?thesis
  proof (cases res)
    case (Inl msg)
    from no_config_step_absent_Inl [OF True call [unfolded Inl]] assms(1)
    show ?thesis by simp
  next
    case (Inr pr)
    obtain c1 st1 where pr: "pr = (c1, st1)" by (cases pr)
    from no_config_step_absent_Inr [OF True call [unfolded Inr pr]] assms(1)
    show ?thesis using True call Inr pr assms(2)
      by (auto simp: configured_slot_def)
  qed
next
  case False
  then obtain v where v: "slots s key = Some v" "v \<noteq> PyNone" by (cases "slots s key") auto
  then obtain c old where t: "slots s key = Some (Tuple c old)" by (cases v) auto
  from no_config_step_present [OF t, of p] assms(1)
  show ?thesis using t assms(2) by (auto simp: configured_slot_def)
qed

text \<open>
  C5, as the code has it. On every render cycle that completes for a selected provider,
  \<open>late_update(component)\<close> is called exactly once, on the component unpacked from the
  slot as lines 210--247 left it, then \<open>get_component_status(component)\<close> is called and
  the description rendered; these are the last three events of the cycle. When the
  recomputed status is \<open>READY\<close> the pair \<open>(component, READY)\<close> is written to the slot;
  when it is not, nothing is written: the slot is as lines 210--247 left it, so it keeps
  the pair stored earlier, or the pair \<open>get_component_and_status\<close> returned on this
  cycle with the status returned then, or stays absent. No other slot changes.
\<close>

theorem late_update_then_status:
  assumes sel: "i < length opts" "opts ! i = (p, md)"
      and run: "configure_component_loop role opts (Some i) submitted s = (Inr k, s')"
  shows "\<exists>c old pre.
      k = Some (role @ ''_'' @ name md)
    \<and> slot_pair (configured_slot p submitted (world s) (slots s (role @ ''_'' @ name md)))
        = Tuple c old
    \<and> new_events s s' = pre @ [CallLateUpdate c, CallGetComponentStatus c,
          DescriptionMarkdown (get_component_status p c (world s') = READY)
            (name md) (description md)]
    \<and> \<not> list_ex is_CallLateUpdate pre
    \<and> slots s' =
         (if get_component_status p c (world s') = READY
          then (slots s)((role @ ''_'' @ name md) \<mapsto> Tuple c (Some READY))
          else (slots s)((role @ ''_'' @ name md) :=
                 configured_slot p submitted (world s) (slots s (role @ ''_'' @ name md))))"
proof -
  define key where "key = role @ ''_'' @ name md"
  define ckey where "ckey = ''config_'' @ key"
  define hd_evs :: "('a, 'b, 'c) event list"
    where "hd_evs = [Subheader (''Configure '' @ role), Selectbox (role @ ''_selectbox'')]"
  define s1 where "s1 = s\<lparr>ui := ui s @ hd_evs\<rparr>"
  define mid where "mid = configured_slot p submitted (world s) (slots s key)"
  obtain r s2 where mid_step:
    "(case get_config_schema p of
        Some schema \<Rightarrow> form_step role key ckey p schema submitted s1
      | None \<Rightarrow> no_config_step key p s1) = (r, s2)"
    by (cases "case get_config_schema p of
        Some schema \<Rightarrow> form_step role key ckey p schema submitted s1
      | None \<Rightarrow> no_config_step key p s1")
  have eq: "configure_component_loop role opts (Some i) submitted s =
           (case r of Inl e \<Rightarrow> (Inl e, s2) | Inr _ \<Rightarrow> late_update_step key p md s2)"
    by (rule configure_component_loop_mid
          [OF sel key_def ckey_def s1_def [unfolded hd_evs_def] mid_step])
  from run eq obtain u where r: "r = Inr u" by (cases r) simp_all
  from run eq r have late: "late_update_step key p md s2 = (Inr k, s')" by simp
  have s1_fields: "slots s1 = slots s" "world s1 = world s" by (simp_all add: s1_def)
  have slots2: "slots s2 = (slots s)(key := mid)"
  proof (cases "get_config_schema p")
    case None
    with mid_step r have "no_config_step key p s1 = (Inr u, s2)" by simp
    from no_config_step_slots [OF this None, of submitted]
    show ?thesis by (simp add: s1_fields mid_def)
  next
    case (Some sch)
    with mid_step r have "form_step role key ckey p sch submitted s1 = (Inr u, s2)" by simp
    from form_step_slots [OF this Some]
    show ?thesis by (simp add: s1_fields mid_def)
  qed
  have sg2: "slot_get (slots s2) key = slot_pair mid"
    by (simp add: slots2 slot_get_def slot_pair_def)
  obtain c old where slot: "slot_get (slots s2) key = Tuple c old"
    using late by (cases "slot_get (slots s2) key") (simp_all add: late_update_step_PyNone)
  note fin = late [unfolded late_update_step_Tuple [OF slot]]
  have "\<exists>evs. ui s2 = ui s1 @ evs \<and> \<not> list_ex is_CallLateUpdate evs"
    using mid_step by (cases "get_config_schema p") (auto dest: form_step_ui no_config_step_ui)
  then obtain evs where evs: "ui s2 = ui s1 @ evs" "\<not> list_ex is_CallLateUpdate evs" by blast
  have k: "k = Some key" using fin by simp
  have pair: "slot_pair mid = Tuple c old" using sg2 slot by simp
  have ev: "new_events s s' = (hd_evs @ evs) @ [CallLateUpdate c, CallGetComponentStatus c,
          DescriptionMarkdown (get_component_status p c (world s') = READY)
            (name md) (description md)]"
    using fin evs by (auto simp: new_events_def s1_def)
  have pre: "\<not> list_ex is_CallLateUpdate (hd_evs @ evs)" using evs by (simp add: hd_evs_def)
  have sl: "slots s' =
         (if get_component_status p c (world s') = READY
          then (slots s)(key \<mapsto> Tuple c (Some READY))
          else (slots s)(key := mid))"
    using fin slots2 by auto
  show ?thesis
    using k pair ev pre sl unfolding key_def mid_def by blast
qed

theorem late_update_then_status_witness:
  "0 < length [(plain_provider, sample_metadata)]
   \<and> configure_component_loop ''Scraper'' [(plain_provider, sample_metadata)] (Some 0) None
         (empty_state True)
       = (Inr (Some ''Scraper_Sample''),
          snd (configure_component_loop ''Scraper'' [(plain_provider, sample_metadata)] (Some 0) None
                 (empty_state True)))
   \<and> slots (snd (configure_component_loop ''Scraper'' [(plain_provider, sample_metadata)] (Some 0)
                    None (empty_state True))) ''Scraper_Sample''
       = Some (Tuple (Some 7) (Some READY))
   \<and> 0 < length [(form_provider, sample_metadata)]
   \<and> configure_component_loop ''Scraper'' [(form_provider, sample_metadata)] (Some 0) (Some 3)
         (empty_state False)
       = (Inr (Some ''Scraper_Sample''),
          snd (configure_component_loop ''Scraper'' [(form_provider, sample_metadata)] (Some 0)
                 (Some 3) (empty_state False)))
   \<and> get_component_status form_provider (Some 3)
        (world (snd (configure_component_loop ''Scraper'' [(form_provider, sample_metadata)]
                       (Some 0) (Some 3) (empty_state False)))) = NOT_READY
   \<and> slots (snd (configure_component_loop ''Scraper'' [(form_provider, sample_metadata)] (Some 0)
                    (Some 3) (empty_state False))) ''Scraper_Sample''
       = Some (Tuple (Some 3) (Some READY))"
proof -
  have len: "0 < length [(plain_provider, sample_metadata)]" by simp
  have sel: "[(plain_provider, sample_metadata)] ! 0 = (plain_provider, sample_metadata)" by simp
  have run: "configure_component_loop ''Scraper'' [(plain_provider, sample_metadata)] (Some 0) None
         (empty_state True)
       = (Inr (Some ''Scraper_Sample''),
          snd (configure_component_loop ''Scraper'' [(plain_provider, sample_metadata)] (Some 0) None
                 (empty_state True)))"
    by (simp add: prod_eq_iff configure_component_loop_def no_config_step_def
        late_update_step_def slot_get_def emit_def Let_def plain_provider_def sample_metadata_def
        empty_state_def)
  have w: "world (snd (configure_component_loop ''Scraper'' [(plain_provider, sample_metadata)]
                         (Some 0) None (empty_state True))) = True"
    by (simp add: configure_component_loop_def no_config_step_def
        late_update_step_def slot_get_def emit_def Let_def plain_provider_def sample_metadata_def
        empty_state_def)
  have mid: "configured_slot plain_provider None (world (empty_state True)) None
             = Some (Tuple (Some 7) (Some READY))"
    by (simp add: configured_slot_def plain_provider_def empty_state_def)
  have st: "get_component_status plain_provider c True = READY" for c
    by (simp add: plain_provider_def)
  have nm: "''Scraper'' @ ''_'' @ name sample_metadata = ''Scraper_Sample''"
    by (simp add: sample_metadata_def)
  have len2: "0 < length [(form_provider, sample_metadata)]" by simp
  have sel2: "[(form_provider, sample_metadata)] ! 0 = (form_provider, sample_metadata)" by simp
  have run2: "configure_component_loop ''Scraper'' [(form_provider, sample_metadata)] (Some 0)
         (Some 3) (empty_state False)
       = (Inr (Some ''Scraper_Sample''),
          snd (configure_component_loop ''Scraper'' [(form_provider, sample_metadata)] (Some 0)
                 (Some 3) (empty_state False)))"
    by (simp add: prod_eq_iff configure_component_loop_def form_step_def submit_config_def
        late_update_step_def slot_get_def emit_def Let_def form_provider_def sample_metadata_def
        empty_state_def)
  have w2: "world (snd (configure_component_loop ''Scraper'' [(form_provider, sample_metadata)]
                         (Some 0) (Some 3) (empty_state False))) = False"
    by (simp add: configure_component_loop_def form_step_def submit_config_def
        late_update_step_def slot_get_def emit_def Let_def form_provider_def sample_metadata_def
        empty_state_def)
  have mid2: "configured_slot form_provider (Some 3) (world (empty_state False)) None
             = Some (Tuple (Some 3) (Some READY))"
    by (simp add: configured_slot_def form_provider_def empty_state_def)
  have st2: "get_component_status form_provider c False = NOT_READY" for c
    by (simp add: form_provider_def)
  have empty: "slots (empty_state w0) = Map.empty" for w0 by (simp add: empty_state_def)
  from late_update_then_status [OF len sel run]
  have a: "slots (snd (configure_component_loop ''Scraper'' [(plain_provider, sample_metadata)]
                    (Some 0) None (empty_state True))) ''Scraper_Sample''
       = Some (Tuple (Some 7) (Some READY))"
    by (auto simp: slot_pair_def st empty mid w nm)
  from late_update_then_status [OF len2 sel2 run2]
  have b: "slots (snd (configure_component_loop ''Scraper'' [(form_provider, sample_metadata)]
                    (Some 0) (Some 3) (empty_state False))) ''Scraper_Sample''
       = Some (Tuple (Some 3) (Some READY))"
    by (auto simp: slot_pair_def st2 empty mid2 w2 nm)
  show ?thesis using len run a len2 run2 b by (simp add: w2 st2)
qed

text \<open>
  C5 as stated fails. A provider without a schema, its service reachable on the first
  cycle, stores \<open>(component, READY)\<close>. On the second cycle the service is down:
  \<open>late_update\<close> runs, the recomputed status is \<open>NOT_READY\<close>, and the slot still says
  \<open>READY\<close>.
\<close>

theorem persist_whatever_status_counterexample:
  "get_component_status plain_provider (Some 7)
      (world (render_cycles ''Scraper'' [(plain_provider, sample_metadata)] 0
                [service_up, service_down] (empty_state True))) = NOT_READY
   \<and> length (filter is_CallLateUpdate
        (ui (render_cycles ''Scraper'' [(plain_provider, sample_metadata)] 0
                [service_up, service_down] (empty_state True)))) = 2
   \<and> slots (render_cycles ''Scraper'' [(plain_provider, sample_metadata)] 0
                [service_up, service_down] (empty_state True)) ''Scraper_Sample''
       = Some (Tuple (Some 7) (Some READY))
   \<and> slots (render_cycles ''Scraper'' [(plain_provider, sample_metadata)] 0
                [service_up, service_down] (empty_state True)) ''Scraper_Sample''
       \<noteq> Some (Tuple (Some 7) (Some NOT_READY))"
  by (simp add: configure_component_loop_def no_config_step_def
        late_update_step_def slot_get_def emit_def Let_def plain_provider_def sample_metadata_def
        empty_state_def service_up_def service_down_def)

text \<open>
  C1. A provider with a schema whose \<open>get_component_and_status\<close> raises on the submitted
  configuration: the error is shown, but the slot is set to \<open>None\<close>, not to
  \<open>(None, None)\<close>, so the unpacking at line 250 raises \<open>TypeError\<close> and the cycle ends
  with that exception; so does the next cycle, at line 222.
\<close>

theorem construction_error_escapes:
  "fst (configure_component_loop ''Scraper'' [(failing_provider, sample_metadata)] (Some 0) (Some 1)
          (empty_state True)) = Inl TypeError
   \<and> slots (snd (configure_component_loop ''Scraper'' [(failing_provider, sample_metadata)]
          (Some 0) (Some 1) (empty_state True))) ''Scraper_Sample'' = Some PyNone
   \<and> slots (snd (configure_component_loop ''Scraper'' [(failing_provider, sample_metadata)]
          (Some 0) (Some 1) (empty_state True))) ''Scraper_Sample'' \<noteq> Some (Tuple None None)
   \<and> StError ''Error creating Scraper: bad key''
       \<in> set (ui (snd (configure_component_loop ''Scraper'' [(failing_provider, sample_metadata)]
          (Some 0) (Some 1) (empty_state True))))
   \<and> fst (configure_component_loop ''Scraper'' [(failing_provider, sample_metadata)] (Some 0) None
          (snd (configure_component_loop ''Scraper'' [(failing_provider, sample_metadata)]
          (Some 0) (Some 1) (empty_state True)))) = Inl TypeError"
  by (simp add: configure_component_loop_def form_step_def submit_config_def late_update_step_def
      slot_get_def emit_def Let_def failing_provider_def sample_metadata_def empty_state_def)

lemma not_list_ex_filter: "\<not> list_ex P xs \<Longrightarrow> filter P xs = []"
  by (induction xs) auto

lemma cycle_no_schema_present:
  assumes sel: "i < length opts" "opts ! i = (p, md)"
      and ns: "get_config_schema p = None"
      and slot: "slots s (role @ ''_'' @ name md) = Some (Tuple c st)"
  shows "\<exists>st' evs.
           slots (snd (configure_component_loop role opts (Some i) submitted s))
             (role @ ''_'' @ name md) = Some (Tuple c st')
         \<and> ui (snd (configure_component_loop role opts (Some i) submitted s)) = ui s @ evs
         \<and> \<not> list_ex is_CallGetComponentAndStatus evs"
proof -
  define key where "key = role @ ''_'' @ name md"
  define ckey where "ckey = ''config_'' @ key"
  define s1 where
    "s1 = s\<lparr>ui := ui s @ [Subheader (''Configure '' @ role), Selectbox (role @ ''_selectbox'')]\<rparr>"
  have slot1: "slots s1 key = Some (Tuple c st)" using slot by (simp add: s1_def key_def)
  have mid: "(case get_config_schema p of
        Some schema \<Rightarrow> form_step role key ckey p schema submitted s1
      | None \<Rightarrow> no_config_step key p s1) = (Inr (), s1)"
    by (simp add: ns no_config_step_present [OF slot1])
  have sg: "slot_get (slots s1) key = Tuple c st" using slot1 by (simp add: slot_get_def)
  have eq: "configure_component_loop role opts (Some i) submitted s = late_update_step key p md s1"
    using configure_component_loop_mid [OF sel key_def ckey_def s1_def mid] by simp
  let ?st = "get_component_status p c (late_update p c (world s1))"
  have u: "ui (snd (configure_component_loop role opts (Some i) submitted s))
             = ui s @ [Subheader (''Configure '' @ role), Selectbox (role @ ''_selectbox''),
                 CallLateUpdate c, CallGetComponentStatus c,
                 DescriptionMarkdown (?st = READY) (name md) (description md)]"
    unfolding eq late_update_step_Tuple [OF sg] by (simp add: s1_def)
  have sl: "\<exists>st'. slots (snd (configure_component_loop role opts (Some i) submitted s)) key
                = Some (Tuple c st')"
    unfolding eq late_update_step_Tuple [OF sg] using slot1 by simp
  have a: "\<not> list_ex is_CallGetComponentAndStatus
             [Subheader (''Configure '' @ role), Selectbox (role @ ''_selectbox''),
                 CallLateUpdate c, CallGetComponentStatus c,
                 DescriptionMarkdown (?st = READY) (name md) (description md)]" by simp
  show ?thesis
    using u sl a unfolding key_def by blast
qed

lemma cycles_no_schema_present:
  assumes sel: "i < length opts" "opts ! i = (p, md)"
      and ns: "get_config_schema p = None"
  shows "slots s (role @ ''_'' @ name md) = Some (Tuple c st) \<Longrightarrow>
         \<exists>evs. ui (render_cycles role opts i envs s) = ui s @ evs
              \<and> \<not> list_ex is_CallGetComponentAndStatus evs"
proof (induction envs arbitrary: s st)
  case Nil
  then show ?case by simp
next
  case (Cons env envs)
  let ?s0 = "s\<lparr>world := env (world s)\<rparr>"
  let ?s1 = "snd (configure_component_loop role opts (Some i) None ?s0)"
  have "slots ?s0 (role @ ''_'' @ name md) = Some (Tuple c st)" using Cons.prems by simp
  from cycle_no_schema_present [OF sel ns this, of None]
  obtain st' evs where 1: "slots ?s1 (role @ ''_'' @ name md) = Some (Tuple c st')"
    and 2: "ui ?s1 = ui s @ evs" and 3: "\<not> list_ex is_CallGetComponentAndStatus evs"
    by auto
  from Cons.IH [OF 1] obtain evs' where
    "ui (render_cycles role opts i envs ?s1) = ui ?s1 @ evs'"
    "\<not> list_ex is_CallGetComponentAndStatus evs'" by blast
  with 2 3 show ?case by auto
qed

lemma cycle_no_schema_absent:
  assumes sel: "i < length opts" "opts ! i = (p, md)"
      and ns: "get_config_schema p = None"
      and slot: "slots s (role @ ''_'' @ name md) = None \<or> slots s (role @ ''_'' @ name md) = Some PyNone"
  shows "\<exists>evs evs'.
           ui (snd (configure_component_loop role opts (Some i) submitted s))
             = ui s @ evs @ [CallGetComponentAndStatus None] @ evs'
         \<and> \<not> list_ex is_CallGetComponentAndStatus evs
         \<and> \<not> list_ex is_CallGetComponentAndStatus evs'
         \<and> (\<forall>c st. fst (get_component_and_status p None (world s)) = Inr (c, st) \<longrightarrow>
               (\<exists>st'. slots (snd (configure_component_loop role opts (Some i) submitted s))
                  (role @ ''_'' @ name md) = Some (Tuple c st')))"
proof -
  define key where "key = role @ ''_'' @ name md"
  define ckey where "ckey = ''config_'' @ key"
  define s1 where
    "s1 = s\<lparr>ui := ui s @ [Subheader (''Configure '' @ role), Selectbox (role @ ''_selectbox'')]\<rparr>"
  have slot1: "slots s1 key = None \<or> slots s1 key = Some PyNone"
    using slot by (simp add: s1_def key_def)
  obtain r w' where call: "get_component_and_status p None (world s1) = (r, w')"
    by (cases "get_component_and_status p None (world s1)")
  have w1: "world s1 = world s" by (simp add: s1_def)
  show ?thesis
  proof (cases r)
    case (Inl msg)
    have mid: "(case get_config_schema p of
        Some schema \<Rightarrow> form_step role key ckey p schema submitted s1
      | None \<Rightarrow> no_config_step key p s1)
      = (Inl (ProviderError msg), s1\<lparr>world := w', ui := ui s1 @ [CallGetComponentAndStatus None]\<rparr>)"
      using no_config_step_absent_Inl [OF slot1 call [unfolded Inl]] by (simp add: ns)
    have eq: "configure_component_loop role opts (Some i) submitted s =
       (Inl (ProviderError msg), s1\<lparr>world := w', ui := ui s1 @ [CallGetComponentAndStatus None]\<rparr>)"
      using configure_component_loop_mid [OF sel key_def ckey_def s1_def mid] by simp
    have "ui (snd (configure_component_loop role opts (Some i) submitted s))
             = ui s @ [Subheader (''Configure '' @ role), Selectbox (role @ ''_selectbox'')]
                @ [CallGetComponentAndStatus None] @ []"
      by (simp add: eq s1_def)
    moreover have "fst (get_component_and_status p None (world s)) \<noteq> Inr (c, st)" for c st
      using call Inl w1 by simp
    moreover have "\<not> list_ex is_CallGetComponentAndStatus
               [Subheader (''Configure '' @ role), Selectbox (role @ ''_selectbox'')]" by simp
    moreover have "\<not> list_ex is_CallGetComponentAndStatus ([] :: ('a, 'b, 'c) event list)" by simp
    ultimately show ?thesis
      unfolding key_def by blast
  next
    case (Inr pr)
    obtain c st where pr: "pr = (c, st)" by (cases pr)
    let ?s2 = "s1\<lparr>world := w', slots := (slots s1)(key \<mapsto> Tuple c (Some st)),
               ui := ui s1 @ [CallGetComponentAndStatus None]\<rparr>"
    have mid: "(case get_config_schema p of
        Some schema \<Rightarrow> form_step role key ckey p schema submitted s1
      | None \<Rightarrow> no_config_step key p s1) = (Inr (), ?s2)"
      using no_config_step_absent_Inr [OF slot1 call [unfolded Inr pr]] by (simp add: ns)
    have sg: "slot_get (slots ?s2) key = Tuple c (Some st)" by (simp add: slot_get_def)
    have eq: "configure_component_loop role opts (Some i) submitted s = late_update_step key p md ?s2"
      using configure_component_loop_mid [OF sel key_def ckey_def s1_def mid] by simp
    let ?st = "get_component_status p c (late_update p c w')"
    have u: "ui (snd (configure_component_loop role opts (Some i) submitted s))
             = ui s @ [Subheader (''Configure '' @ role), Selectbox (role @ ''_selectbox'')]
                @ [CallGetComponentAndStatus None]
                @ [CallLateUpdate c, CallGetComponentStatus c,
                   DescriptionMarkdown (?st = READY) (name md) (description md)]"
      unfolding eq late_update_step_Tuple [OF sg] by (simp add: s1_def)
    have sl: "\<exists>st'. slots (snd (configure_component_loop role opts (Some i) submitted s)) key
                = Some (Tuple c st')"
      unfolding eq late_update_step_Tuple [OF sg] by simp
    have only: "fst (get_component_and_status p None (world s)) = Inr (c0, st0) \<Longrightarrow> c0 = c" for c0 st0
      using call Inr pr w1 by simp
    have a: "\<not> list_ex is_CallGetComponentAndStatus
               [Subheader (''Configure '' @ role), Selectbox (role @ ''_selectbox'')]" by simp
    have b: "\<not> list_ex is_CallGetComponentAndStatus [CallLateUpdate c, CallGetComponentStatus c,
                   DescriptionMarkdown (?st = READY) (name md) (description md)]" by simp
    show ?thesis
      using u sl only a b unfolding key_def by blast
  qed
qed

text \<open>
  C7. For a provider whose \<open>get_config_schema\<close> returns \<open>None\<close>: a render cycle that
  finds the slot absent (or \<open>None\<close>) calls \<open>get_component_and_status(None)\<close> exactly
  once; a cycle that finds a pair in the slot does not call it, and neither does any
  number of later cycles with the same selection, whatever happens outside in between.
  So from an empty slot, if the first call returns, any series of cycles makes that one
  call and no other.
\<close>

theorem no_schema_instantiated_once:
  assumes sel: "i < length opts" "opts ! i = (p, md)"
      and ns: "get_config_schema p = None"
  shows "(slots s (role @ ''_'' @ name md) = None \<or> slots s (role @ ''_'' @ name md) = Some PyNone \<longrightarrow>
            filter is_CallGetComponentAndStatus
              (new_events s (snd (configure_component_loop role opts (Some i) submitted s)))
            = [CallGetComponentAndStatus None])
       \<and> (\<forall>c st. slots s (role @ ''_'' @ name md) = Some (Tuple c st) \<longrightarrow>
            filter is_CallGetComponentAndStatus
              (new_events s (snd (configure_component_loop role opts (Some i) submitted s))) = []
            \<and> (\<forall>envs. filter is_CallGetComponentAndStatus
                         (new_events s (render_cycles role opts i envs s)) = []))
       \<and> (\<forall>env envs pr.
            (slots s (role @ ''_'' @ name md) = None \<or> slots s (role @ ''_'' @ name md) = Some PyNone)
            \<and> fst (get_component_and_status p None (env (world s))) = Inr pr \<longrightarrow>
            filter is_CallGetComponentAndStatus
              (new_events s (render_cycles role opts i (env # envs) s))
            = [CallGetComponentAndStatus None])"
proof (intro conjI allI impI)
  assume "slots s (role @ ''_'' @ name md) = None \<or> slots s (role @ ''_'' @ name md) = Some PyNone"
  from cycle_no_schema_absent [OF sel ns this, of submitted]
  obtain evs evs' where
    "ui (snd (configure_component_loop role opts (Some i) submitted s))
       = ui s @ evs @ [CallGetComponentAndStatus None] @ evs'"
    "\<not> list_ex is_CallGetComponentAndStatus evs" "\<not> list_ex is_CallGetComponentAndStatus evs'"
    by blast
  then show "filter is_CallGetComponentAndStatus
              (new_events s (snd (configure_component_loop role opts (Some i) submitted s)))
            = [CallGetComponentAndStatus None]"
    by (simp add: new_events_def not_list_ex_filter)
next
  fix c st
  assume "slots s (role @ ''_'' @ name md) = Some (Tuple c st)"
  from cycle_no_schema_present [OF sel ns this, of submitted]
  obtain evs where "ui (snd (configure_component_loop role opts (Some i) submitted s)) = ui s @ evs"
    "\<not> list_ex is_CallGetComponentAndStatus evs" by blast
  then show "filter is_CallGetComponentAndStatus
              (new_events s (snd (configure_component_loop role opts (Some i) submitted s))) = []"
    by (simp add: new_events_def not_list_ex_filter)
next
  fix c st envs
  assume "slots s (role @ ''_'' @ name md) = Some (Tuple c st)"
  from cycles_no_schema_present [OF sel ns this, of envs]
  obtain evs where "ui (render_cycles role opts i envs s) = ui s @ evs"
    "\<not> list_ex is_CallGetComponentAndStatus evs" by blast
  then show "filter is_CallGetComponentAndStatus
               (new_events s (render_cycles role opts i envs s)) = []"
    by (simp add: new_events_def not_list_ex_filter)
next
  fix env envs pr
  assume h: "(slots s (role @ ''_'' @ name md) = None \<or> slots s (role @ ''_'' @ name md) = Some PyNone)
            \<and> fst (get_component_and_status p None (env (world s))) = Inr pr"
  let ?s0 = "s\<lparr>world := env (world s)\<rparr>"
  let ?s1 = "snd (configure_component_loop role opts (Some i) None ?s0)"
  obtain c st where pr: "pr = (c, st)" by (cases pr)
  have slot0: "slots ?s0 (role @ ''_'' @ name md) = None
             \<or> slots ?s0 (role @ ''_'' @ name md) = Some PyNone" using h by simp
  have call0: "fst (get_component_and_status p None (world ?s0)) = Inr (c, st)"
    using h pr by simp
  from cycle_no_schema_absent [OF sel ns slot0, of None] call0
  obtain evs evs' st' where
    1: "ui ?s1 = ui s @ evs @ [CallGetComponentAndStatus None] @ evs'"
    and 2: "\<not> list_ex is_CallGetComponentAndStatus evs"
    and 3: "\<not> list_ex is_CallGetComponentAndStatus evs'"
    and 4: "slots ?s1 (role @ ''_'' @ name md) = Some (Tuple c st')"
    by auto
  from cycles_no_schema_present [OF sel ns 4, of envs]
  obtain evs'' where 5: "ui (render_cycles role opts i envs ?s1) = ui ?s1 @ evs''"
    and 6: "\<not> list_ex is_CallGetComponentAndStatus evs''" by blast
  show "filter is_CallGetComponentAndStatus
              (new_events s (render_cycles role opts i (env # envs) s))
            = [CallGetComponentAndStatus None]"
    using 1 2 3 5 6 by (simp add: new_events_def not_list_ex_filter)
qed

theorem no_schema_instantiated_once_witness:
  "0 < length [(plain_provider, sample_metadata)]
   \<and> get_config_schema plain_provider = None
   \<and> slots (empty_state True) (''Scraper'' @ ''_'' @ name sample_metadata) = None
   \<and> fst (get_component_and_status plain_provider None (service_up (world (empty_state True))))
       = Inr (Some 7, READY)
   \<and> filter is_CallGetComponentAndStatus
        (new_events (empty_state True)
           (render_cycles ''Scraper'' [(plain_provider, sample_metadata)] 0
              [service_up, service_down, service_up] (empty_state True)))
       = [CallGetComponentAndStatus None]"
proof -
  have len: "0 < length [(plain_provider, sample_metadata)]" by simp
  have sel: "[(plain_provider, sample_metadata)] ! 0 = (plain_provider, sample_metadata)" by simp
  have ns: "get_config_schema plain_provider = None" by (simp add: plain_provider_def)
  have slot: "slots (empty_state True) (''Scraper'' @ ''_'' @ name sample_metadata) = None"
    by (simp add: empty_state_def)
  have call: "fst (get_component_and_status plain_provider None
                    (service_up (world (empty_state True)))) = Inr (Some 7, READY)"
    by (simp add: plain_provider_def service_up_def)
  from no_schema_instantiated_once [OF len sel ns, of "empty_state True" "''Scraper''" None]
    len ns slot call
  show ?thesis by blast
qed

lemma late_update_step_frame:
  assumes "late_update_step key p md s = (r, s')"
  shows "configs s' = configs s
       \<and> (\<exists>evs. ui s' = ui s @ evs \<and> (\<forall>k init. PydanticForm k init \<notin> set evs))"
proof (cases "slot_get (slots s) key")
  case PyNone
  with assms show ?thesis by (simp add: late_update_step_PyNone)
next
  case (Tuple c old)
  with assms show ?thesis by (auto simp: late_update_step_Tuple)
qed

lemma form_step_summary:
  assumes slot: "slot_get (slots s) key = Tuple c old"
      and run: "form_step role key ckey p sch submitted s = (r, s2)"
  shows "r = Inr ()
       \<and> (\<exists>evs. ui s2 = ui s @ PydanticForm (key @ ''_form'')
                    (spec_form_init (configs s ckey) (get_default_config p) sch) # evs
              \<and> (\<forall>k init. PydanticForm k init \<notin> set evs))
       \<and> configs s2 =
           (case submitted of
              None \<Rightarrow> configs s
            | Some cfg \<Rightarrow> (case fst (get_component_and_status p (Some cfg) (world s)) of
                            Inl msg \<Rightarrow> configs s
                          | Inr pr \<Rightarrow> (configs s)(ckey \<mapsto> cfg)))"
proof (cases submitted)
  case None
  with run show ?thesis by (auto simp: form_step_Tuple [OF slot] emit_def)
next
  case (Some cfg)
  let ?s1 = "emit (PydanticForm (key @ ''_form'')
                 (spec_form_init (configs s ckey) (get_default_config p) sch)) s"
  have s2: "s2 = submit_config role key ckey p cfg ?s1" and r: "r = Inr ()"
    using run Some by (auto simp: form_step_Tuple [OF slot])
  obtain res w' where call: "get_component_and_status p (Some cfg) (world ?s1) = (res, w')"
    by (cases "get_component_and_status p (Some cfg) (world ?s1)")
  have w: "world ?s1 = world s" by (simp add: emit_def)
  show ?thesis
  proof (cases res)
    case (Inl msg)
    from submit_config_Inl [OF call [unfolded Inl], of role key ckey]
    show ?thesis using r s2 Some call Inl w by (auto simp: emit_def)
  next
    case (Inr pr)
    obtain c1 st1 where pr: "pr = (c1, st1)" by (cases pr)
    from submit_config_Inr [OF call [unfolded Inr pr], of role key ckey]
    show ?thesis using r s2 Some call Inr w by (auto simp: emit_def)
  qed
qed

text \<open>
  C8. For a provider with a schema, every form the cycle renders is this slot's form and
  its initial values are the saved configuration under \<open>config_<role>_<name>\<close> if there
  is one, otherwise the provider's default configuration, otherwise the bare schema; the
  form is rendered whenever the slot can be unpacked. The saved configurations after the
  cycle are those before it, except that a submission on which
  \<open>get_component_and_status\<close> returns stores the submitted configuration under that key:
  without a submission, or when the call raises, nothing is saved.
\<close>

theorem form_initial_values_and_saved_config:
  assumes sel: "i < length opts" "opts ! i = (p, md)"
      and sch: "get_config_schema p = Some sch"
  shows "(\<forall>k init. PydanticForm k init
             \<in> set (new_events s (snd (configure_component_loop role opts (Some i) submitted s)))
           \<longrightarrow> k = (role @ ''_'' @ name md) @ ''_form''
             \<and> init = spec_form_init (configs s (''config_'' @ role @ ''_'' @ name md))
                        (get_default_config p) sch)
       \<and> (slot_get (slots s) (role @ ''_'' @ name md) \<noteq> PyNone \<longrightarrow>
            PydanticForm ((role @ ''_'' @ name md) @ ''_form'')
              (spec_form_init (configs s (''config_'' @ role @ ''_'' @ name md))
                 (get_default_config p) sch)
            \<in> set (new_events s (snd (configure_component_loop role opts (Some i) submitted s))))
       \<and> configs (snd (configure_component_loop role opts (Some i) submitted s)) =
           (if slot_get (slots s) (role @ ''_'' @ name md) = PyNone then configs s
            else case submitted of
                   None \<Rightarrow> configs s
                 | Some cfg \<Rightarrow>
                     (case fst (get_component_and_status p (Some cfg) (world s)) of
                        Inl msg \<Rightarrow> configs s
                      | Inr pr \<Rightarrow> (configs s)((''config_'' @ role @ ''_'' @ name md) \<mapsto> cfg)))"
proof -
  define key where "key = role @ ''_'' @ name md"
  define ckey where "ckey = ''config_'' @ key"
  define hd_evs :: "('a, 'b, 'c) event list"
    where "hd_evs = [Subheader (''Configure '' @ role), Selectbox (role @ ''_selectbox'')]"
  define s1 where "s1 = s\<lparr>ui := ui s @ hd_evs\<rparr>"
  define s' where "s' = snd (configure_component_loop role opts (Some i) submitted s)"
  define init where "init = spec_form_init (configs s ckey) (get_default_config p) sch"
  obtain r s2 where fs: "form_step role key ckey p sch submitted s1 = (r, s2)"
    by (cases "form_step role key ckey p sch submitted s1")
  have mid: "(case get_config_schema p of
        Some schema \<Rightarrow> form_step role key ckey p schema submitted s1
      | None \<Rightarrow> no_config_step key p s1) = (r, s2)"
    using fs by (simp add: sch)
  have eq: "configure_component_loop role opts (Some i) submitted s =
           (case r of Inl e \<Rightarrow> (Inl e, s2) | Inr _ \<Rightarrow> late_update_step key p md s2)"
    by (rule configure_component_loop_mid [OF sel key_def ckey_def s1_def [unfolded hd_evs_def] mid])
  have nf: "\<forall>k init. PydanticForm k init \<notin> set hd_evs" by (simp add: hd_evs_def)
  have goal: "(\<forall>k i0. PydanticForm k i0 \<in> set (new_events s s') \<longrightarrow> k = key @ ''_form'' \<and> i0 = init)
       \<and> (slot_get (slots s) key \<noteq> PyNone \<longrightarrow> PydanticForm (key @ ''_form'') init \<in> set (new_events s s'))
       \<and> configs s' =
           (if slot_get (slots s) key = PyNone then configs s
            else case submitted of
                   None \<Rightarrow> configs s
                 | Some cfg \<Rightarrow>
                     (case fst (get_component_and_status p (Some cfg) (world s)) of
                        Inl msg \<Rightarrow> configs s
                      | Inr pr \<Rightarrow> (configs s)(ckey \<mapsto> cfg)))"
  proof (cases "slot_get (slots s) key")
    case PyNone
    then have "slot_get (slots s1) key = PyNone" by (simp add: s1_def)
    from form_step_PyNone [OF this, of role ckey p sch submitted] fs
    have "r = Inl TypeError" "s2 = s1" by simp_all
    with eq have "s' = s1" by (simp add: s'_def)
    with PyNone nf show ?thesis by (auto simp: s1_def new_events_def)
  next
    case (Tuple c old)
    then have slot1: "slot_get (slots s1) key = Tuple c old" by (simp add: s1_def)
    have s1_fields: "configs s1 = configs s" "world s1 = world s" "ui s1 = ui s @ hd_evs"
      by (simp_all add: s1_def)
    from form_step_summary [OF slot1 fs, unfolded s1_fields, folded init_def]
    obtain evs where r: "r = Inr ()"
      and u2: "ui s2 = (ui s @ hd_evs) @ PydanticForm (key @ ''_form'') init # evs"
      and nf2: "\<forall>k i0. PydanticForm k i0 \<notin> set evs"
      and c2: "configs s2 = (case submitted of
              None \<Rightarrow> configs s
            | Some cfg \<Rightarrow> (case fst (get_component_and_status p (Some cfg) (world s)) of
                            Inl msg \<Rightarrow> configs s
                          | Inr pr \<Rightarrow> (configs s)(ckey \<mapsto> cfg)))"
      by blast
    obtain r3 where late: "late_update_step key p md s2 = (r3, s')"
      using eq r by (cases "late_update_step key p md s2") (simp add: s'_def)
    from late_update_step_frame [OF late]
    obtain evs3 where c3: "configs s' = configs s2" and u3: "ui s' = ui s2 @ evs3"
      and nf3: "\<forall>k i0. PydanticForm k i0 \<notin> set evs3" by blast
    have ne: "new_events s s' = hd_evs @ PydanticForm (key @ ''_form'') init # evs @ evs3"
      using u2 u3 by (simp add: new_events_def)
    show ?thesis
      using Tuple c2 c3 nf nf2 nf3 unfolding ne by auto
  qed
  show ?thesis
    using goal unfolding key_def ckey_def s'_def init_def by simp
qed

theorem form_initial_values_and_saved_config_witness:
  "0 < length [(form_provider, sample_metadata)]
   \<and> get_config_schema form_provider = Some 0
   \<and> slot_get (slots (empty_state True)) ''Scraper_Sample'' \<noteq> PyNone
   \<and> PydanticForm ''Scraper_Sample_form'' (FromConfig 5)
        \<in> set (new_events (empty_state True)
                 (snd (configure_component_loop ''Scraper'' [(form_provider, sample_metadata)]
                         (Some 0) (Some 3) (empty_state True))))
   \<and> configs (snd (configure_component_loop ''Scraper'' [(form_provider, sample_metadata)]
                      (Some 0) (Some 3) (empty_state True))) ''config_Scraper_Sample'' = Some 3
   \<and> configs (snd (configure_component_loop ''Scraper'' [(form_provider, sample_metadata)]
                      (Some 0) (Some 0) (empty_state True))) ''config_Scraper_Sample'' = None"
proof -
  have len: "0 < length [(form_provider, sample_metadata)]" by simp
  have sel: "[(form_provider, sample_metadata)] ! 0 = (form_provider, sample_metadata)" by simp
  have sch: "get_config_schema form_provider = Some 0" by (simp add: form_provider_def)
  have slot: "slot_get (slots (empty_state True)) ''Scraper_Sample'' \<noteq> PyNone"
    by (simp add: slot_get_def empty_state_def)
  have dflt: "get_default_config form_provider = Some 5" by (simp add: form_provider_def)
  have ok: "fst (get_component_and_status form_provider (Some 3) (world (empty_state True)))
              = Inr (Some 3, READY)"
    by (simp add: form_provider_def)
  have bad: "fst (get_component_and_status form_provider (Some 0) (world (empty_state True)))
              = Inl ''rejected''"
    by (simp add: form_provider_def)
  have saved: "configs (empty_state True) k = None" for k by (simp add: empty_state_def)
  have nm: "name sample_metadata = ''Sample''" by (simp add: sample_metadata_def)
  from form_initial_values_and_saved_config [OF len sel sch, of "empty_state True" "''Scraper''" "Some 3"]
       form_initial_values_and_saved_config [OF len sel sch, of "empty_state True" "''Scraper''" "Some 0"]
  show ?thesis
    using len sch slot
    by (simp add: dflt ok bad saved nm spec_form_init_def)
qed

subsection \<open>The execution runner\<close>

lemma scrape_loop_run:
  "(ls \<noteq> [] \<Longrightarrow> 0 < n) \<Longrightarrow>
   scrape_loop work ls n acc w s =
     (Inr (), w\<lparr>scrapes := scrapes w @ map (scrape_item work (scraper w)) ls\<rparr>,
      s\<lparr>ui := ui s @ loop_events ls n acc\<rparr>)"
proof (induction ls arbitrary: acc w s)
  case Nil
  then show ?case by simp
next
  case (Cons l ls)
  then have n: "0 < n" by simp
  show ?case
    using n by (simp add: Cons.IH Let_def emit_def)
qed

lemma analyze_loop_run:
  "(rs \<noteq> [] \<Longrightarrow> 0 < n) \<Longrightarrow>
   analyze_loop work rs n acc w s =
     (Inr (), w\<lparr>analyses := analyses w @ map (analyze_item work (analyzer w)) rs\<rparr>,
      s\<lparr>ui := ui s @ loop_events (map link rs) n acc\<rparr>)"
proof (induction rs arbitrary: acc w s)
  case Nil
  then show ?case by simp
next
  case (Cons r rs)
  then have n: "0 < n" by simp
  show ?case
    using n by (simp add: Cons.IH Let_def emit_def)
qed

lemma scrape_clicked_run:
  "links_df s = Some links \<Longrightarrow>
   scrape_clicked work w s =
     (Inr (),
      s\<lparr>workflow := Some (w\<lparr>scrapes := map (scrape_item work (scraper w)) links\<rparr>),
        scrapes_df := Some (get_scrapes (w\<lparr>scrapes := map (scrape_item work (scraper w)) links\<rparr>)),
        ui := ui s @ [ProgressBar 0, ClearScrapes, ScrapeGenerator links True]
                @ loop_events links (length links) 0 @ [BarEmpty, GetScrapes]\<rparr>)"
  by (simp add: scrape_clicked_def Let_def emit_def clear_scrapes_def start_scrape_generator_def
      scrape_loop_run get_scrapes_def)

lemma analyze_clicked_run:
  "analyze_clicked work w s =
     (Inr (),
      s\<lparr>workflow := Some (w\<lparr>analyses := map (analyze_item work (analyzer w)) (scrapes w)\<rparr>),
        analysis_df := Some (get_analyses
           (w\<lparr>analyses := map (analyze_item work (analyzer w)) (scrapes w)\<rparr>)),
        ui := ui s @ [ClearAnalyses, ProgressBar 0, GetScrapes, AnalyzeGenerator True]
                @ loop_events (map link (scrapes w)) (length (scrapes w)) 0
                @ [BarEmpty, GetAnalyses]\<rparr>)"
  by (simp add: analyze_clicked_def Let_def emit_def clear_analyses_def
      start_analyze_generator_def analyze_loop_run get_scrapes_def get_analyses_def)

lemma get_workflow_props:
  assumes "get_workflow a b s = (w, s1)"
  shows "\<exists>nw. ui s1 = ui s @ nw \<and> \<not> list_ex is_runner_call nw \<and> \<not> list_ex is_Button nw
            \<and> progress_values nw = []"
    and "slots s1 = slots s" and "links_df s1 = links_df s" and "scrapes_df s1 = scrapes_df s"
    and "analysis_df s1 = analysis_df s" and "workflow s1 = Some w"
    and "scrapes w = (case workflow s of None \<Rightarrow> [] | Some w0 \<Rightarrow> scrapes w0)"
    and "scraper w = (case a of Some x \<Rightarrow> Some x
                      | None \<Rightarrow> (case workflow s of None \<Rightarrow> None | Some w0 \<Rightarrow> scraper w0))"
    and "analyzer w = (case b of Some x \<Rightarrow> Some x
                      | None \<Rightarrow> (case workflow s of None \<Rightarrow> None | Some w0 \<Rightarrow> analyzer w0))"
  using assms
  by (cases "workflow s"; cases a; cases b;
      auto simp: get_workflow_present get_workflow_absent emit_def)+

lemma run_scrape_section_PyNone:
  "slot_get_opt (slots s) key = PyNone \<Longrightarrow> run_scrape_section work key clicked s = (Inl TypeError, s)"
  by (simp add: run_scrape_section_def)

lemma run_scrape_section_idle:
  assumes "slot_get_opt (slots s) key = Tuple scr status"
      and "get_workflow scr None s = (w, s1)"
  shows "run_scrape_section work key False s =
     (Inr (),
      s1\<lparr>ui := ui s1 @ [Button ''run_scrape'' (status \<noteq> Some READY)]
          @ (if status \<noteq> Some READY
             then [StWarning ''Configure a good scraper to scrape links.''] else [])
          @ (case scrapes_df s1 of
               None \<Rightarrow> []
             | Some df \<Rightarrow> if 0 < length (rows df) then [ShowDataframe ''scrape_dataframe''] else [])\<rparr>)"
  using assms
  by (auto simp: run_scrape_section_def Let_def emit_def split: option.splits)

lemma run_scrape_section_no_links:
  assumes "slot_get_opt (slots s) key = Tuple scr status"
      and "links_df s = None"
      and "get_workflow scr None s = (w, s1)"
  shows "run_scrape_section work key True s =
           (Inl TypeError, s1\<lparr>ui := ui s1 @ [Button ''run_scrape'' (status \<noteq> Some READY)]\<rparr>)"
proof -
  have l: "links_df s1 = None" using assms(2) get_workflow_props(3) [OF assms(3)] by simp
  show ?thesis
    using assms(1,3) l
    by (cases "status = Some READY")
       (auto simp: run_scrape_section_def Let_def emit_def scrape_clicked_def)
qed

lemma run_scrape_section_run:
  assumes "slot_get_opt (slots s) key = Tuple scr status"
      and "links_df s = Some links"
      and "get_workflow scr None s = (w, s1)"
  shows "run_scrape_section work key True s =
     (Inr (),
      s1\<lparr>workflow := Some (w\<lparr>scrapes := map (scrape_item work (scraper w)) links\<rparr>),
         scrapes_df := Some (get_scrapes (w\<lparr>scrapes := map (scrape_item work (scraper w)) links\<rparr>)),
         ui := ui s1 @ [Button ''run_scrape'' (status \<noteq> Some READY), ProgressBar 0, ClearScrapes,
                        ScrapeGenerator links True]
                @ loop_events links (length links) 0 @ [BarEmpty, GetScrapes]
                @ (if status \<noteq> Some READY
                   then [StWarning ''Configure a good scraper to scrape links.''] else [])
                @ (if links \<noteq> [] then [ShowDataframe ''scrape_dataframe''] else [])\<rparr>)"
proof -
  have l2: "links_df (s1\<lparr>ui := ui s1 @ [Button ''run_scrape'' d]\<rparr>) = Some links" for d
    using assms(2) get_workflow_props(3) [OF assms(3)] by simp
  show ?thesis
    using assms(1,3)
    by (cases "status = Some READY")
       (auto simp: run_scrape_section_def Let_def scrape_clicked_run [OF l2]
          emit_def get_scrapes_def)
qed

lemma run_analyze_section_PyNone:
  "slot_get_opt (slots s) key = PyNone \<Longrightarrow> run_analyze_section work key clicked s = (Inl TypeError, s)"
  by (simp add: run_analyze_section_def)

lemma run_analyze_section_idle:
  assumes "slot_get_opt (slots s) key = Tuple ana status"
      and "get_workflow None ana s = (w, s1)"
  shows "run_analyze_section work key False s =
     (Inr (),
      s1\<lparr>ui := ui s1 @ [Button ''run_analyze'' (status \<noteq> Some READY)]
          @ (if status \<noteq> Some READY
             then [StWarning ''Configure a good analyzer to analyze content.''] else [])
          @ (case analysis_df s1 of
               None \<Rightarrow> []
             | Some df \<Rightarrow> if 0 < length (rows df) \<and> ''analysis_success'' \<in> set (columns df)
                         then [ShowDataframe ''analyze_dataframe''] else [])\<rparr>)"
  using assms
  by (auto simp: run_analyze_section_def Let_def emit_def split: option.splits)

lemma run_analyze_section_run:
  assumes "slot_get_opt (slots s) key = Tuple ana status"
      and "get_workflow None ana s = (w, s1)"
  shows "run_analyze_section work key True s =
     (Inr (),
      s1\<lparr>workflow := Some (w\<lparr>analyses := map (analyze_item work (analyzer w)) (scrapes w)\<rparr>),
         analysis_df := Some (get_analyses
            (w\<lparr>analyses := map (analyze_item work (analyzer w)) (scrapes w)\<rparr>)),
         ui := ui s1 @ [Button ''run_analyze'' (status \<noteq> Some READY), ClearAnalyses, ProgressBar 0,
                        GetScrapes, AnalyzeGenerator True]
                @ loop_events (map link (scrapes w)) (length (scrapes w)) 0
                @ [BarEmpty, GetAnalyses]
                @ (if status \<noteq> Some READY
                   then [StWarning ''Configure a good analyzer to analyze content.''] else [])
                @ (if scrapes w \<noteq> [] then [ShowDataframe ''analyze_dataframe''] else [])\<rparr>)"
proof -
  have b: "(\<not> ((\<exists>y. status = Some y) \<and> status = Some READY)) = (status \<noteq> Some READY)"
    by auto
  show ?thesis
    using assms
    by (simp add: run_analyze_section_def Let_def b analyze_clicked_run emit_def get_analyses_def)
qed

lemma loop_events_no_Button: "Button k d \<notin> set (loop_events ls n acc)"
  by (induction ls arbitrary: acc) auto

lemma not_list_ex_Button: "\<not> list_ex is_Button xs \<Longrightarrow> Button k d \<notin> set xs"
  by (auto simp: list_ex_iff)

lemma list_ex_append_runner:
  "list_ex is_runner_call (xs @ ys) = (list_ex is_runner_call xs \<or> list_ex is_runner_call ys)"
  by (auto simp: list_ex_iff)

lemma scrape_section_gate:
  "(\<forall>k d. Button k d \<in> set (new_events s (snd (run_scrape_section work key clicked s)))
       \<longrightarrow> k = ''run_scrape'' \<and> d = (stored_status (slots s) key \<noteq> Some READY))
   \<and> (slot_get_opt (slots s) key \<noteq> PyNone \<longrightarrow>
        Button ''run_scrape'' (stored_status (slots s) key \<noteq> Some READY)
          \<in> set (new_events s (snd (run_scrape_section work key clicked s))))
   \<and> list_ex is_runner_call (new_events s (snd (run_scrape_section work key clicked s)))
       = (clicked \<and> slot_get_opt (slots s) key \<noteq> PyNone \<and> links_df s \<noteq> None)
   \<and> (\<not> clicked \<longrightarrow> scrapes_df (snd (run_scrape_section work key clicked s)) = scrapes_df s)"
proof (cases "slot_get_opt (slots s) key")
  case PyNone
  then show ?thesis
    by (simp add: run_scrape_section_PyNone new_events_def stored_status_def)
next
  case (Tuple scr status)
  obtain w s1 where gw: "get_workflow scr None s = (w, s1)"
    by (cases "get_workflow scr None s")
  from get_workflow_props(1) [OF gw] obtain nw where nw: "ui s1 = ui s @ nw"
    "\<not> list_ex is_runner_call nw" "\<not> list_ex is_Button nw" by blast
  note nb = not_list_ex_Button [OF nw(3)]
  have st: "stored_status (slots s) key = status" using Tuple by (simp add: stored_status_def)
  show ?thesis
  proof (cases clicked)
    case False
    from run_scrape_section_idle [OF Tuple gw, of work]
    show ?thesis
      using nw nb st get_workflow_props(4) [OF gw] Tuple False
      by (auto simp: new_events_def list_ex_append_runner split: option.splits if_splits)
  next
    case True
    show ?thesis
    proof (cases "links_df s")
      case None
      from run_scrape_section_no_links [OF Tuple None gw, of work]
      show ?thesis using nw nb st True Tuple None
        by (auto simp: new_events_def list_ex_append_runner)
    next
      case (Some links)
      from run_scrape_section_run [OF Tuple Some gw, of work]
      show ?thesis using nw nb st True Tuple Some
        by (auto simp: new_events_def loop_events_no_Button list_ex_append_runner)
    qed
  qed
qed

lemma analyze_section_gate:
  "(\<forall>k d. Button k d \<in> set (new_events s (snd (run_analyze_section work key clicked s)))
       \<longrightarrow> k = ''run_analyze'' \<and> d = (stored_status (slots s) key \<noteq> Some READY))
   \<and> (slot_get_opt (slots s) key \<noteq> PyNone \<longrightarrow>
        Button ''run_analyze'' (stored_status (slots s) key \<noteq> Some READY)
          \<in> set (new_events s (snd (run_analyze_section work key clicked s))))
   \<and> list_ex is_runner_call (new_events s (snd (run_analyze_section work key clicked s)))
       = (clicked \<and> slot_get_opt (slots s) key \<noteq> PyNone)
   \<and> (\<not> clicked \<longrightarrow> analysis_df (snd (run_analyze_section work key clicked s)) = analysis_df s)"
proof (cases "slot_get_opt (slots s) key")
  case PyNone
  then show ?thesis
    by (simp add: run_analyze_section_PyNone new_events_def stored_status_def)
next
  case (Tuple ana status)
  obtain w s1 where gw: "get_workflow None ana s = (w, s1)"
    by (cases "get_workflow None ana s")
  from get_workflow_props(1) [OF gw] obtain nw where nw: "ui s1 = ui s @ nw"
    "\<not> list_ex is_runner_call nw" "\<not> list_ex is_Button nw" by blast
  note nb = not_list_ex_Button [OF nw(3)]
  have st: "stored_status (slots s) key = status" using Tuple by (simp add: stored_status_def)
  show ?thesis
  proof (cases clicked)
    case False
    from run_analyze_section_idle [OF Tuple gw, of work]
    show ?thesis
      using nw nb st get_workflow_props(5) [OF gw] Tuple False
      by (auto simp: new_events_def list_ex_append_runner split: option.splits if_splits)
  next
    case True
    from run_analyze_section_run [OF Tuple gw, of work]
    show ?thesis using nw nb st True Tuple
      by (auto simp: new_events_def loop_events_no_Button list_ex_append_runner)
  qed
qed


lemma progress_values_append: "progress_values (xs @ ys) = progress_values xs @ progress_values ys"
  by (induction xs rule: progress_values.induct) simp_all


lemma stage_calls_loop_events: "filter is_stage_call (loop_events ls n acc) = []"
  by (induction ls arbitrary: acc) simp_all

lemma stage_call_is_runner_call: "is_stage_call e \<Longrightarrow> is_runner_call e"
  by (cases e) simp_all

lemma no_runner_no_stage: "\<not> list_ex is_runner_call xs \<Longrightarrow> filter is_stage_call xs = []"
  by (induction xs) (auto dest: stage_call_is_runner_call)

lemma no_runner_no_yield: "\<not> list_ex is_runner_call xs \<Longrightarrow> yielded xs = []"
  by (induction xs rule: yielded.induct) simp_all

text \<open>
  C2, as the code has it. In either run section, the only button rendered is the section's
  own, it is rendered whenever the slot can be unpacked, and it is disabled exactly when
  the stored status of the selected slot is not \<open>READY\<close>. The section calls the runner
  exactly when \<open>st.button\<close> returns \<open>True\<close> (the slot being a pair and, for Scrape, the
  table of links present), whatever the stored status: the status is not tested again.
  When the button returns \<open>False\<close> the stored table is left as it was.
\<close>

theorem run_buttons_disabled_unless_ready:
  "(\<forall>k d. Button k d \<in> set (new_events s (snd (run_scrape_section work_s skey clicked s)))
       \<longrightarrow> k = ''run_scrape'' \<and> d = (stored_status (slots s) skey \<noteq> Some READY))
   \<and> (slot_get_opt (slots s) skey \<noteq> PyNone \<longrightarrow>
        Button ''run_scrape'' (stored_status (slots s) skey \<noteq> Some READY)
          \<in> set (new_events s (snd (run_scrape_section work_s skey clicked s))))
   \<and> list_ex is_runner_call (new_events s (snd (run_scrape_section work_s skey clicked s)))
       = (clicked \<and> slot_get_opt (slots s) skey \<noteq> PyNone \<and> links_df s \<noteq> None)
   \<and> (\<not> clicked \<longrightarrow> scrapes_df (snd (run_scrape_section work_s skey clicked s)) = scrapes_df s)
   \<and> (\<forall>k d. Button k d \<in> set (new_events s (snd (run_analyze_section work_a akey clicked s)))
       \<longrightarrow> k = ''run_analyze'' \<and> d = (stored_status (slots s) akey \<noteq> Some READY))
   \<and> (slot_get_opt (slots s) akey \<noteq> PyNone \<longrightarrow>
        Button ''run_analyze'' (stored_status (slots s) akey \<noteq> Some READY)
          \<in> set (new_events s (snd (run_analyze_section work_a akey clicked s))))
   \<and> list_ex is_runner_call (new_events s (snd (run_analyze_section work_a akey clicked s)))
       = (clicked \<and> slot_get_opt (slots s) akey \<noteq> PyNone)
   \<and> (\<not> clicked \<longrightarrow> analysis_df (snd (run_analyze_section work_a akey clicked s)) = analysis_df s)"
  using scrape_section_gate [of s work_s skey clicked] analyze_section_gate [of s work_a akey clicked]
  by blast

theorem run_buttons_disabled_unless_ready_witness:
  "slot_get_opt (slots unready_state) (Some ''Scraper_Sample'') \<noteq> PyNone
   \<and> stored_status (slots unready_state) (Some ''Scraper_Sample'') \<noteq> Some READY
   \<and> Button ''run_scrape'' True
        \<in> set (new_events unready_state
             (snd (run_scrape_section sample_scrape (Some ''Scraper_Sample'') False unready_state)))
   \<and> \<not> list_ex is_runner_call (new_events unready_state
             (snd (run_scrape_section sample_scrape (Some ''Scraper_Sample'') False unready_state)))
   \<and> scrapes_df (snd (run_scrape_section sample_scrape (Some ''Scraper_Sample'') False
                        unready_state)) = scrapes_df unready_state
   \<and> slot_get_opt (slots ready_state) (Some ''Analyzer_Sample'') \<noteq> PyNone
   \<and> Button ''run_analyze'' False
        \<in> set (new_events ready_state
             (snd (run_analyze_section sample_analyze (Some ''Analyzer_Sample'') True ready_state)))
   \<and> list_ex is_runner_call (new_events ready_state
             (snd (run_analyze_section sample_analyze (Some ''Analyzer_Sample'') True ready_state)))"
proof -
  have a: "slot_get_opt (slots unready_state) (Some ''Scraper_Sample'') \<noteq> PyNone"
    by (simp add: slot_get_opt_def slot_get_def unready_state_def)
  have b: "stored_status (slots unready_state) (Some ''Scraper_Sample'') = Some NOT_READY"
    by (simp add: stored_status_def slot_get_opt_def slot_get_def unready_state_def)
  have c: "slot_get_opt (slots ready_state) (Some ''Analyzer_Sample'') \<noteq> PyNone"
    by (simp add: slot_get_opt_def slot_get_def ready_state_def)
  have d: "stored_status (slots ready_state) (Some ''Analyzer_Sample'') = Some READY"
    by (simp add: stored_status_def slot_get_opt_def slot_get_def ready_state_def)
  from run_buttons_disabled_unless_ready [of unready_state sample_scrape "Some ''Scraper_Sample''"
         False sample_analyze "Some ''Analyzer_Sample''"]
       run_buttons_disabled_unless_ready [of ready_state sample_scrape "Some ''Scraper_Sample''"
         True sample_analyze "Some ''Analyzer_Sample''"]
  show ?thesis using a b c d by simp
qed

text \<open>
  C2 as stated fails in its second half. The stored status of the selected scraper is
  \<open>NOT_READY\<close> and the button is rendered disabled; on a rerun in which \<open>st.button\<close>
  nevertheless returns \<open>True\<close> the section clears the scrapes and runs the generator over
  the three links, and likewise the Analyze section.
\<close>

theorem runner_invoked_when_not_ready_counterexample:
  "stored_status (slots unready_state) (Some ''Scraper_Sample'') \<noteq> Some READY
   \<and> Button ''run_scrape'' True
        \<in> set (new_events unready_state
             (snd (run_scrape_section sample_scrape (Some ''Scraper_Sample'') True unready_state)))
   \<and> filter is_stage_call (new_events unready_state
             (snd (run_scrape_section sample_scrape (Some ''Scraper_Sample'') True unready_state)))
       = [ClearScrapes, ScrapeGenerator sample_links True]
   \<and> yielded (new_events unready_state
             (snd (run_scrape_section sample_scrape (Some ''Scraper_Sample'') True unready_state)))
       = sample_links
   \<and> stored_status (slots unready_state) (Some ''Analyzer_Sample'') \<noteq> Some READY
   \<and> filter is_stage_call (new_events unready_state
             (snd (run_analyze_section sample_analyze (Some ''Analyzer_Sample'') True unready_state)))
       = [ClearAnalyses, AnalyzeGenerator True]"
  by (simp add: run_scrape_section_def scrape_clicked_def get_workflow_def
      run_analyze_section_def analyze_clicked_def clear_analyses_def start_analyze_generator_def
      get_analyses_def stored_status_def
      slot_get_opt_def slot_get_def emit_def Let_def clear_scrapes_def
      start_scrape_generator_def get_scrapes_def new_events_def unready_state_def ready_state_def
      sample_links_def)

lemma get_workflow_no_stage:
  assumes "get_workflow a b s = (w, s1)"
  shows "\<exists>nw. ui s1 = ui s @ nw \<and> filter is_stage_call nw = [] \<and> yielded nw = []"
  using get_workflow_props(1) [OF assms] no_runner_no_stage no_runner_no_yield by blast

lemma stored_status_READY:
  "stored_status m key = Some READY \<Longrightarrow> \<exists>c. slot_get_opt m key = Tuple c (Some READY)"
  by (cases "slot_get_opt m key") (simp_all add: stored_status_def)

text \<open>
  C3. A click on Scrape with a ready scraper clears the scrapes and then starts the
  generator over the current links with \<open>overwrite=True\<close>, each once and in this order;
  the run ends without an exception and the table stored afterwards, which is the
  workflow's, has one row per link, whatever the workflow held before. Likewise for
  Analyze, whose inputs are the workflow's scrapes.
\<close>

theorem overwrite_run_replaces_results:
  "(stored_status (slots s) skey = Some READY \<and> links_df s = Some links \<longrightarrow>
        fst (run_scrape_section work_s skey True s) = Inr ()
      \<and> filter is_stage_call (new_events s (snd (run_scrape_section work_s skey True s)))
          = [ClearScrapes, ScrapeGenerator links True]
      \<and> (\<exists>df w. scrapes_df (snd (run_scrape_section work_s skey True s)) = Some df
            \<and> length (rows df) = length links
            \<and> workflow (snd (run_scrape_section work_s skey True s)) = Some w
            \<and> rows df = scrapes w))
   \<and> (stored_status (slots s) akey = Some READY \<longrightarrow>
        fst (run_analyze_section work_a akey True s) = Inr ()
      \<and> filter is_stage_call (new_events s (snd (run_analyze_section work_a akey True s)))
          = [ClearAnalyses, AnalyzeGenerator True]
      \<and> (\<exists>df w. analysis_df (snd (run_analyze_section work_a akey True s)) = Some df
            \<and> length (rows df) = (case workflow s of None \<Rightarrow> 0 | Some w0 \<Rightarrow> length (scrapes w0))
            \<and> workflow (snd (run_analyze_section work_a akey True s)) = Some w
            \<and> rows df = analyses w))"
proof (intro conjI impI)
  assume h: "stored_status (slots s) skey = Some READY \<and> links_df s = Some links"
  then obtain scr where slot: "slot_get_opt (slots s) skey = Tuple scr (Some READY)"
    using stored_status_READY by blast
  from h have links: "links_df s = Some links" by simp
  obtain w s1 where gw: "get_workflow scr None s = (w, s1)" by (cases "get_workflow scr None s")
  from get_workflow_no_stage [OF gw] obtain nw where nw: "ui s1 = ui s @ nw"
    "filter is_stage_call nw = []" by blast
  note run = run_scrape_section_run [OF slot links gw, of work_s]
  show "fst (run_scrape_section work_s skey True s) = Inr ()" by (simp add: run)
  show "filter is_stage_call (new_events s (snd (run_scrape_section work_s skey True s)))
          = [ClearScrapes, ScrapeGenerator links True]"
    using nw by (simp add: run new_events_def stage_calls_loop_events)
  show "\<exists>df w. scrapes_df (snd (run_scrape_section work_s skey True s)) = Some df
            \<and> length (rows df) = length links
            \<and> workflow (snd (run_scrape_section work_s skey True s)) = Some w
            \<and> rows df = scrapes w"
    by (simp add: run get_scrapes_def)
next
  assume h: "stored_status (slots s) akey = Some READY"
  then obtain ana where slot: "slot_get_opt (slots s) akey = Tuple ana (Some READY)"
    using stored_status_READY by blast
  obtain w s1 where gw: "get_workflow None ana s = (w, s1)" by (cases "get_workflow None ana s")
  from get_workflow_no_stage [OF gw] obtain nw where nw: "ui s1 = ui s @ nw"
    "filter is_stage_call nw = []" by blast
  note run = run_analyze_section_run [OF slot gw, of work_a]
  show "fst (run_analyze_section work_a akey True s) = Inr ()" by (simp add: run)
  show "filter is_stage_call (new_events s (snd (run_analyze_section work_a akey True s)))
          = [ClearAnalyses, AnalyzeGenerator True]"
    using nw by (simp add: run new_events_def stage_calls_loop_events)
  show "\<exists>df w. analysis_df (snd (run_analyze_section work_a akey True s)) = Some df
            \<and> length (rows df) = (case workflow s of None \<Rightarrow> 0 | Some w0 \<Rightarrow> length (scrapes w0))
            \<and> workflow (snd (run_analyze_section work_a akey True s)) = Some w
            \<and> rows df = analyses w"
    using get_workflow_props(7) [OF gw] by (simp add: run get_analyses_def split: option.split)
qed

lemma scraped_state_eval:
  "slots scraped_state = [''Scraper_Sample'' \<mapsto> Tuple (Some 7) (Some READY),
                           ''Analyzer_Sample'' \<mapsto> Tuple (Some 8) (Some READY)]"
  "scrapes_df scraped_state =
     Some \<lparr>columns = [''link'', ''content'', ''scrape_success'', ''scrape_error''],
           rows = map (scrape_item sample_scrape (Some 7)) sample_links\<rparr>"
  "workflow scraped_state =
     Some \<lparr>scraper = Some 7, analyzer = None,
           scrapes = map (scrape_item sample_scrape (Some 7)) sample_links, analyses = []\<rparr>"
  by (simp_all add: scraped_state_def run_scrape_section_def scrape_clicked_def get_workflow_def
      slot_get_opt_def slot_get_def emit_def Let_def clear_scrapes_def
      start_scrape_generator_def get_scrapes_def ready_state_def sample_links_def)

theorem overwrite_run_replaces_results_witness:
  "stored_status (slots edited_state) (Some ''Scraper_Sample'') = Some READY
   \<and> links_df edited_state = Some second_links
   \<and> map_option (\<lambda>df. length (rows df)) (scrapes_df edited_state) = Some 3
   \<and> (\<exists>df. scrapes_df (snd (run_scrape_section sample_scrape (Some ''Scraper_Sample'') True
                edited_state)) = Some df
          \<and> length (rows df) = 2)
   \<and> stored_status (slots edited_state) (Some ''Analyzer_Sample'') = Some READY
   \<and> (\<exists>df. analysis_df (snd (run_analyze_section sample_analyze (Some ''Analyzer_Sample'') True
                edited_state)) = Some df
          \<and> length (rows df) = 3)"
proof -
  have a: "stored_status (slots edited_state) (Some ''Scraper_Sample'') = Some READY"
    by (simp add: edited_state_def scraped_state_eval stored_status_def slot_get_opt_def slot_get_def)
  have b: "links_df edited_state = Some second_links" by (simp add: edited_state_def)
  have c: "map_option (\<lambda>df. length (rows df)) (scrapes_df edited_state) = Some 3"
    by (simp add: edited_state_def scraped_state_eval sample_links_def)
  have d: "stored_status (slots edited_state) (Some ''Analyzer_Sample'') = Some READY"
    by (simp add: edited_state_def scraped_state_eval stored_status_def slot_get_opt_def slot_get_def)
  have e: "(case workflow edited_state of None \<Rightarrow> 0 | Some w0 \<Rightarrow> length (scrapes w0)) = 3"
    by (simp add: edited_state_def scraped_state_eval sample_links_def)
  have f: "length second_links = 2" by (simp add: second_links_def)
  from overwrite_run_replaces_results [of edited_state "Some ''Scraper_Sample''" second_links
         sample_scrape "Some ''Analyzer_Sample''" sample_analyze]
  show ?thesis using a b c d e f by auto
qed



lemma progress_values_loop_events:
  "progress_values (loop_events ls n acc) = map (\<lambda>k. of_nat k / of_nat n) [acc..<acc + length ls]"
proof (induction ls arbitrary: acc)
  case Nil
  then show ?case by simp
next
  case (Cons l ls)
  have "[acc..<acc + length (l # ls)] = acc # [Suc acc..<Suc acc + length ls]"
    by (subst upt_rec) simp
  then show ?case by (simp add: Cons.IH)
qed

lemma scrape_progress_below_one:
  assumes "slot_get_opt (slots s) key = Tuple scr (Some READY)" and "links_df s = Some links"
  shows "\<forall>v \<in> set (progress_values (new_events s (snd (run_scrape_section work key True s)))). v < 1"
proof -
  obtain w s1 where gw: "get_workflow scr None s = (w, s1)" by (cases "get_workflow scr None s")
  from get_workflow_props(1) [OF gw] obtain nw where nw: "ui s1 = ui s @ nw"
    "progress_values nw = []" by blast
  note run = run_scrape_section_run [OF assms gw, of work]
  have "progress_values (new_events s (snd (run_scrape_section work key True s)))
          = 0 # map (\<lambda>k. of_nat k / of_nat (length links)) [0..<length links]"
    using nw by (simp add: run new_events_def progress_values_append progress_values_loop_events)
  moreover have "rat_of_nat k / rat_of_nat (length links) < 1" if "k < length links" for k
    using that by (simp add: divide_less_eq_1)
  ultimately show ?thesis by auto
qed

text \<open>
  C6. A click on Scrape with a ready scraper over three links: the loop runs three times
  and the run ends without an exception, but the bar is set before \<open>acc\<close> is
  incremented, so the values shown are 0 (when the bar is created), then 0, 1/3 and 2/3;
  the value 1 is never shown. The Analyze loop over the three scrapes shows the same
  values.
\<close>

theorem progress_stops_short:
  "progress_values (new_events ready_state
      (snd (run_scrape_section sample_scrape (Some ''Scraper_Sample'') True ready_state)))
     = [0, 0, 1 / 3, 2 / 3]
   \<and> yielded (new_events ready_state
      (snd (run_scrape_section sample_scrape (Some ''Scraper_Sample'') True ready_state)))
     = sample_links
   \<and> fst (run_scrape_section sample_scrape (Some ''Scraper_Sample'') True ready_state) = Inr ()
   \<and> 1 \<notin> set (progress_values (new_events ready_state
      (snd (run_scrape_section sample_scrape (Some ''Scraper_Sample'') True ready_state))))
   \<and> progress_values (new_events scraped_state
      (snd (run_analyze_section sample_analyze (Some ''Analyzer_Sample'') True scraped_state)))
     = [0, 0, 1 / 3, 2 / 3]"
  by (simp add: scraped_state_def run_scrape_section_def scrape_clicked_def get_workflow_def
      run_analyze_section_def analyze_clicked_def clear_analyses_def start_analyze_generator_def
      get_analyses_def
      slot_get_opt_def slot_get_def emit_def Let_def clear_scrapes_def
      start_scrape_generator_def get_scrapes_def new_events_def ready_state_def sample_links_def)


end
